theory Spec2Isabelle
  imports Main "HOL-Library.Sublist" "HOL-Library.Char_ord" "HOL-Library.List_Lexorder"
begin

section \<open>Text primitives of the survey extraction scripts\<close>

text \<open>
  The scripts under \<^verbatim>\<open>src/server/scripts\<close> work on Python \<^verbatim>\<open>str\<close> values. A string is
  modelled as a \<^typ>\<open>string\<close>; a \<^typ>\<open>char\<close> stands for one code point below 256. The
  character classes are the ones Python uses on that range: \<^verbatim>\<open>str.strip()\<close> and the
  regex class \<^verbatim>\<open>\s\<close> share one set of white space, \<^verbatim>\<open>\d\<close> is \<^verbatim>\<open>0-9\<close>.
\<close>

definition is_space :: "char \<Rightarrow> bool" where
  "is_space c = (c \<in> set [CHR 0x09, CHR 0x0A, CHR 0x0B, CHR 0x0C, CHR 0x0D,
      CHR 0x1C, CHR 0x1D, CHR 0x1E, CHR 0x1F, CHR 0x20, CHR 0x85, CHR 0xA0])"

definition is_digit :: "char \<Rightarrow> bool" where
  "is_digit c = (c \<in> set ''0123456789'')"

definition is_upper :: "char \<Rightarrow> bool" where
  "is_upper c = (c \<in> set ''ABCDEFGHIJKLMNOPQRSTUVWXYZ'')"

definition is_lower :: "char \<Rightarrow> bool" where
  "is_lower c = (c \<in> set ''abcdefghijklmnopqrstuvwxyz'')"

text \<open>\<^verbatim>\<open>s.strip()\<close>.\<close>

definition strip :: "string \<Rightarrow> string" where
  "strip s = rev (dropWhile is_space (rev (dropWhile is_space s)))"

text \<open>\<^verbatim>\<open>sep.join(xs)\<close>.\<close>

fun join :: "string \<Rightarrow> string list \<Rightarrow> string" where
  "join sep [] = []"
| "join sep [x] = x"
| "join sep (x # y # ys) = x @ sep @ join sep (y # ys)"

text \<open>
  \<^verbatim>\<open>s.split(sep)\<close> for a non-empty separator: the pieces between the successive
  occurrences of \<open>sep\<close>, found from the left. \<open>acc\<close> holds the current piece, reversed.
  (Python raises on an empty separator; the scripts only split on literals.)
\<close>

function split_acc :: "string \<Rightarrow> string \<Rightarrow> string \<Rightarrow> string list" where
  "split_acc sep acc [] = [rev acc]"
| "split_acc sep acc (x # xs) =
     (if sep \<noteq> [] \<and> prefix sep (x # xs)
      then rev acc # split_acc sep [] (drop (length sep) (x # xs))
      else split_acc sep (x # acc) xs)"
  by pat_completeness auto
termination
  by (relation "measure (\<lambda>(sep, acc, s). length s)") auto

definition split :: "string \<Rightarrow> string \<Rightarrow> string list" where
  "split sep s = split_acc sep [] s"

text \<open>
  \<^verbatim>\<open>s.split(sep, 1)\<close>: \<open>s\<close> cut at the first occurrence of \<open>sep\<close>, or \<open>s\<close> alone.
\<close>

fun split1_acc :: "string \<Rightarrow> string \<Rightarrow> string \<Rightarrow> string list" where
  "split1_acc sep acc [] = [rev acc]"
| "split1_acc sep acc (x # xs) =
     (if sep \<noteq> [] \<and> prefix sep (x # xs)
      then [rev acc, drop (length sep) (x # xs)]
      else split1_acc sep (x # acc) xs)"

definition split1 :: "string \<Rightarrow> string \<Rightarrow> string list" where
  "split1 sep s = split1_acc sep [] s"

text \<open>\<^verbatim>\<open>s.startswith((p1, p2, ...))\<close>.\<close>

definition starts_any :: "string list \<Rightarrow> string \<Rightarrow> bool" where
  "starts_any ps s = list_ex (\<lambda>p. prefix p s) ps"

text \<open>\<^verbatim>\<open>int(s)\<close> on a string of decimal digits.\<close>

definition digit_val :: "char \<Rightarrow> nat" where
  "digit_val c = length (takeWhile (\<lambda>d. d \<noteq> c) ''0123456789'')"

definition int_of_digits :: "string \<Rightarrow> int" where
  "int_of_digits s = int (foldl (\<lambda>n c. 10 * n + digit_val c) 0 s)"

section \<open>Regular expressions as Python's \<^verbatim>\<open>re\<close> matches them\<close>

text \<open>
  The patterns of the scripts are written in a small regular-expression syntax and run by
  a backtracking matcher with the priorities of Python's \<^verbatim>\<open>re\<close> module: alternatives
  from the left, a greedy repetition tries one more round before it tries to go on, a lazy
  one tries to go on first, a successful look-ahead consumes nothing, and \<^verbatim>\<open>$\<close> holds at
  the end of the string or before a final newline. The matcher takes the rest of the
  pattern as a continuation \<open>k\<close>; the groups matched so far are the list \<open>c\<close>, latest
  first. No pattern of the scripts repeats an expression that can match the empty string,
  and a round of a repetition that consumes nothing is not taken.
\<close>

type_synonym caps = "(nat \<times> string) list"

type_synonym cont = "string \<Rightarrow> caps \<Rightarrow> (string \<times> caps) option"

datatype rx = Eps | Cls "char \<Rightarrow> bool" | Seq rx rx | Alt rx rx
  | Star rx | LStar rx | Grp nat rx | Eol | Look rx

primrec star_g :: "(string \<Rightarrow> caps \<Rightarrow> cont \<Rightarrow> (string \<times> caps) option)
     \<Rightarrow> nat \<Rightarrow> string \<Rightarrow> caps \<Rightarrow> cont \<Rightarrow> (string \<times> caps) option" where
  "star_g f 0 s c k = k s c"
| "star_g f (Suc n) s c k =
     (case f s c (\<lambda>s' c'. if length s' < length s then star_g f n s' c' k else None) of
        Some r \<Rightarrow> Some r
      | None \<Rightarrow> k s c)"

primrec star_l :: "(string \<Rightarrow> caps \<Rightarrow> cont \<Rightarrow> (string \<times> caps) option)
     \<Rightarrow> nat \<Rightarrow> string \<Rightarrow> caps \<Rightarrow> cont \<Rightarrow> (string \<times> caps) option" where
  "star_l f 0 s c k = k s c"
| "star_l f (Suc n) s c k =
     (case k s c of
        Some r \<Rightarrow> Some r
      | None \<Rightarrow> f s c (\<lambda>s' c'. if length s' < length s then star_l f n s' c' k else None))"

primrec rmatch :: "rx \<Rightarrow> string \<Rightarrow> caps \<Rightarrow> cont \<Rightarrow> (string \<times> caps) option" where
  "rmatch Eps s c k = k s c"
| "rmatch (Cls P) s c k = (case s of [] \<Rightarrow> None | x # xs \<Rightarrow> if P x then k xs c else None)"
| "rmatch (Seq a b) s c k = rmatch a s c (\<lambda>s' c'. rmatch b s' c' k)"
| "rmatch (Alt a b) s c k = (case rmatch a s c k of Some r \<Rightarrow> Some r | None \<Rightarrow> rmatch b s c k)"
| "rmatch (Star a) s c k = star_g (rmatch a) (length s) s c k"
| "rmatch (LStar a) s c k = star_l (rmatch a) (length s) s c k"
| "rmatch (Grp i a) s c k =
     rmatch a s c (\<lambda>s' c'. k s' ((i, take (length s - length s') s) # c'))"
| "rmatch Eol s c k = (if s = [] \<or> s = [CHR 0x0A] then k s c else None)"
| "rmatch (Look a) s c k =
     (case rmatch a s c (\<lambda>s' c'. Some (s', c')) of None \<Rightarrow> None | Some _ \<Rightarrow> k s c)"

definition Lit :: "char \<Rightarrow> rx" where
  "Lit x = Cls (\<lambda>c. c = x)"

definition Str :: "string \<Rightarrow> rx" where
  "Str s = foldr (\<lambda>x r. Seq (Lit x) r) s Eps"

definition Plus :: "rx \<Rightarrow> rx" where
  "Plus a = Seq a (Star a)"

definition LPlus :: "rx \<Rightarrow> rx" where
  "LPlus a = Seq a (LStar a)"

definition Opt :: "rx \<Rightarrow> rx" where
  "Opt a = Alt a Eps"

definition Dot :: rx where
  "Dot = Cls (\<lambda>c. c \<noteq> CHR 0x0A)"

definition Digit :: rx where
  "Digit = Cls is_digit"

definition Space :: rx where
  "Space = Cls is_space"

text \<open>The sequence of a list of expressions, and the first alternative that matches.\<close>

definition Seqs :: "rx list \<Rightarrow> rx" where
  "Seqs rs = foldr Seq rs Eps"

fun Alts :: "rx list \<Rightarrow> rx" where
  "Alts [] = Cls (\<lambda>c. False)"
| "Alts [r] = r"
| "Alts (r # q # rs) = Alt r (Alts (q # rs))"

text \<open>
  \<^verbatim>\<open>re.match(r, s)\<close>: the groups of the first match at the start of \<open>s\<close>, with what
  follows the match; \<^verbatim>\<open>re.search(r, s)\<close>: the same at the leftmost position that has a match.
\<close>

definition re_match_rest :: "rx \<Rightarrow> string \<Rightarrow> (string \<times> caps) option" where
  "re_match_rest r s = rmatch r s [] (\<lambda>s' c'. Some (s', c'))"

definition re_match :: "rx \<Rightarrow> string \<Rightarrow> caps option" where
  "re_match r s = map_option snd (re_match_rest r s)"

fun re_search :: "rx \<Rightarrow> string \<Rightarrow> caps option" where
  "re_search r [] = re_match r []"
| "re_search r (x # xs) =
     (case re_match r (x # xs) of Some c \<Rightarrow> Some c | None \<Rightarrow> re_search r xs)"

text \<open>\<^verbatim>\<open>m.group(i)\<close> of a group that took part in the match.\<close>

definition group :: "caps \<Rightarrow> nat \<Rightarrow> string" where
  "group c i = (case map_of c i of Some g \<Rightarrow> g | None \<Rightarrow> [])"

text \<open>
  \<^verbatim>\<open>re.findall(r, s)\<close> for a pattern that is one group: the texts of the successive
  matches, each search starting where the last match ended.
\<close>

function findall :: "rx \<Rightarrow> string \<Rightarrow> string list" where
  "findall r [] = []"
| "findall r (x # xs) =
     (case re_match_rest r (x # xs) of
        Some (rest, c) \<Rightarrow>
          if length rest < length (x # xs) then group c 1 # findall r rest else findall r xs
      | None \<Rightarrow> findall r xs)"
  by pat_completeness auto
termination
  by (relation "measure (\<lambda>(r, s). length s)") auto

text \<open>
  \<^verbatim>\<open>re.sub(r, repl, s)\<close>: every successive match of \<open>r\<close> is replaced by \<open>repl\<close>.
\<close>

function re_sub :: "rx \<Rightarrow> string \<Rightarrow> string \<Rightarrow> string" where
  "re_sub r repl [] = []"
| "re_sub r repl (x # xs) =
     (case re_match_rest r (x # xs) of
        Some (rest, c) \<Rightarrow>
          if length rest < length (x # xs) then repl @ re_sub r repl rest
          else x # re_sub r repl xs
      | None \<Rightarrow> x # re_sub r repl xs)"
  by pat_completeness auto
termination
  by (relation "measure (\<lambda>(r, repl, s). length s)") auto

text \<open>
  The lines of a document: \<^verbatim>\<open>[l.strip() for l in text.split('\n') if l.strip()]\<close>.
\<close>

definition clean_lines :: "string \<Rightarrow> string list" where
  "clean_lines text = filter (\<lambda>l. l \<noteq> []) (map strip (split [CHR 0x0A] text))"

section \<open>The records of the output\<close>

text \<open>The dictionaries that the scripts append to \<^verbatim>\<open>questions\<close>, key by key.\<close>

record answer =
  selectedOption :: "string option"
  comments :: "string option"
  answeredBy :: "string option"
  answeredDate :: "string option"

record question =
  questionId :: string
  questionText :: string
  helpText :: "string option"
  answerType :: string
  options :: "string list"
  givenAnswer :: answer

text \<open>
  What one round of a look-ahead loop does: \<^verbatim>\<open>break\<close>, or go on at line \<open>j'\<close>; both
  with the local variables as the round leaves them.
\<close>

datatype 'v ctl = Break 'v | Continue nat 'v

section \<open>\<^verbatim>\<open>parseFordSurveyImproved.py\<close>\<close>

text \<open>
  \<^verbatim>\<open>question_pattern = re.compile(rf'^.*?{section_id}\.(\d+)\s+(.+)$')\<close>. The scan is
  part of \<^verbatim>\<open>parse_html_file\<close>, which takes the section identifier from the group
  \<^verbatim>\<open>([A-Z])\<close> of the title pattern: it is always one capital letter, which stands for
  itself in the pattern. The model of the scan is written for the text of the identifier
  and matches it letter by letter.
\<close>

definition question_pattern :: "string \<Rightarrow> rx" where
  "question_pattern section_id =
     Seqs [LStar Dot, Str section_id, Lit CHR ''.'', Grp 1 (Plus Digit), Plus Space,
           Grp 2 (Plus Dot), Eol]"

text \<open>\<^verbatim>\<open>r'Answered by:\s*([^0-9\n]+)'\<close> and \<^verbatim>\<open>r'(\d{2}/\d{2}/\d{4})'\<close>.\<close>

definition answered_by_pattern :: rx where
  "answered_by_pattern =
     Seqs [Str ''Answered by:'', Star Space,
           Grp 1 (Plus (Cls (\<lambda>c. \<not> is_digit c \<and> c \<noteq> CHR 0x0A)))]"

definition date_pattern :: rx where
  "date_pattern =
     Grp 1 (Seqs [Digit, Digit, Lit CHR ''/'', Digit, Digit, Lit CHR ''/'',
                  Digit, Digit, Digit, Digit])"

text \<open>The local variables of the look-ahead loop of \<^verbatim>\<open>parse_html_file\<close>.\<close>

record imp_vars =
  imp_question_text_lines :: "string list"
  imp_help_text :: "string option"
  imp_options :: "string list"
  imp_answered_by :: "string option"
  imp_answered_date :: "string option"
  imp_comments :: "string option"
  imp_collecting_question :: bool
  imp_collecting_options :: bool

definition imp_init :: imp_vars where
  "imp_init = \<lparr>imp_question_text_lines = [], imp_help_text = None, imp_options = [],
     imp_answered_by = None, imp_answered_date = None, imp_comments = None,
     imp_collecting_question = True, imp_collecting_options = False\<rparr>"

text \<open>One round of \<^verbatim>\<open>while j < len(all_lines) and j < i + 50\<close> (lines 119 to 199).\<close>

definition imp_body :: "string \<Rightarrow> string list \<Rightarrow> nat \<Rightarrow> imp_vars \<Rightarrow> imp_vars ctl" where
  "imp_body section_id all_lines j v =
    (let next_line = all_lines ! j in
     if re_match (question_pattern section_id) next_line \<noteq> None then Break v
     else if next_line = ''Help Text'' then
       (let v1 = v\<lparr>imp_collecting_question := False\<rparr> in
        if j + 1 < length all_lines
           \<and> \<not> sublist ''Please select'' (all_lines ! (j + 1))
           \<and> length (all_lines ! (j + 1)) < 500
        then Continue (j + 2) (v1\<lparr>imp_help_text := Some (all_lines ! (j + 1))\<rparr>)
        else Continue (j + 1) v1)
     else if sublist ''Please select'' next_line \<and> sublist ''following options'' next_line then
       Continue (j + 1) (v\<lparr>imp_collecting_question := False, imp_collecting_options := True\<rparr>)
     else if imp_collecting_options v then
       (if prefix ''Yes,'' next_line \<or> prefix ''No,'' next_line then
          Continue (j + 1) (v\<lparr>imp_options := imp_options v @ [next_line]\<rparr>)
        else if next_line = ''Not applicable'' then
          Continue (j + 1) (v\<lparr>imp_options := imp_options v @ [next_line]\<rparr>)
        else if next_line \<in> set [''Show possible answers'', ''Answered by:'', ''Date:'',
                                  ''Comments'', ''Data Location:''] then
          Continue (j + 1) (v\<lparr>imp_collecting_options := False\<rparr>)
        else Continue (j + 1) v)
     else if sublist ''Answered by:'' next_line then
       (let v1 = v\<lparr>imp_collecting_question := False\<rparr> in
        case re_search answered_by_pattern next_line of
          Some m \<Rightarrow> Continue (j + 1) (v1\<lparr>imp_answered_by := Some (strip (group m 1))\<rparr>)
        | None \<Rightarrow> Continue (j + 1) v1)
     else if sublist ''Date:'' next_line \<or> re_search date_pattern next_line \<noteq> None then
       (case re_search date_pattern next_line of
          Some m \<Rightarrow> Continue (j + 1) (v\<lparr>imp_answered_date := Some (group m 1)\<rparr>)
        | None \<Rightarrow> Continue (j + 1) v)
     else if next_line = ''Comments'' then
       (if j + 1 < length all_lines
           \<and> all_lines ! (j + 1) \<notin> set [''Data Location:'', ''Terms of Use'']
        then Continue (j + 2) (v\<lparr>imp_comments := Some (all_lines ! (j + 1))\<rparr>)
        else Continue (j + 1) v)
     else if prefix ''Data Location:'' next_line then Break v
     else if imp_collecting_question v then
       (if next_line \<notin> set [''Help Text'', ''Comments'', ''Data Location:'',
                               ''Show possible answers''] then
          (if CHR ''?'' \<in> set next_line then
             Continue (j + 1) (v\<lparr>imp_question_text_lines := imp_question_text_lines v @ [next_line],
                                 imp_collecting_question := False\<rparr>)
           else
             Continue (j + 1) (v\<lparr>imp_question_text_lines := imp_question_text_lines v @ [next_line]\<rparr>))
        else Continue (j + 1) v)
     else Continue (j + 1) v)"

lemma imp_body_advances:
  "imp_body section_id all_lines j v = Continue j' v' \<Longrightarrow> j < j'"
  by (auto simp: imp_body_def Let_def split: if_splits option.splits)

text \<open>The look-ahead loop: the line where it stops and the local variables there.\<close>

function imp_lookahead :: "string \<Rightarrow> string list \<Rightarrow> nat \<Rightarrow> nat \<Rightarrow> imp_vars \<Rightarrow> nat \<times> imp_vars" where
  "imp_lookahead section_id all_lines i j v =
    (if j < length all_lines \<and> j < i + 50 then
       (case imp_body section_id all_lines j v of
          Break v' \<Rightarrow> (j, v')
        | Continue j' v' \<Rightarrow> imp_lookahead section_id all_lines i j' v')
     else (j, v))"
  by pat_completeness auto
termination
  by (relation "measure (\<lambda>(section_id, all_lines, i, j, v). length all_lines - j)")
     (auto dest: imp_body_advances)

declare imp_lookahead.simps [simp del]

text \<open>Lines 201 to 222: the dictionary appended for the question that starts at line \<open>i\<close>.\<close>

definition imp_question :: "string \<Rightarrow> string list \<Rightarrow> nat \<Rightarrow> string \<Rightarrow> imp_vars \<Rightarrow> question" where
  "imp_question section_id all_lines i question_num v =
    (let joined = strip (join '' '' (imp_question_text_lines v));
         question_text =
           (if joined = [] then (if i + 1 < length all_lines then all_lines ! (i + 1) else [])
            else joined)
     in \<lparr>questionId = section_id @ ''.'' @ question_num,
         questionText = (if question_text \<noteq> [] then question_text else ''Question text not found''),
         helpText = imp_help_text v,
         answerType = ''single-choice'',
         options = imp_options v,
         givenAnswer = \<lparr>selectedOption = None, comments = imp_comments v,
                         answeredBy = imp_answered_by v, answeredDate = imp_answered_date v\<rparr>\<rparr>)"

text \<open>
  One round of \<^verbatim>\<open>while i < len(all_lines)\<close> (lines 96 to 228), from the cursor \<open>i\<close> and
  the list \<^verbatim>\<open>questions\<close> to the next cursor and list.
\<close>

definition imp_step :: "string \<Rightarrow> string list \<Rightarrow> nat \<times> question list \<Rightarrow> nat \<times> question list" where
  "imp_step section_id all_lines st =
    (case st of (i, questions) \<Rightarrow>
      (case re_match (question_pattern section_id) (all_lines ! i) of
         Some q_match \<Rightarrow>
           (case imp_lookahead section_id all_lines i (i + 1) imp_init of
              (j, v) \<Rightarrow> (j, questions @ [imp_question section_id all_lines i (group q_match 1) v]))
       | None \<Rightarrow> (i + 1, questions)))"

lemma imp_lookahead_ge: "j \<le> fst (imp_lookahead section_id all_lines i j v)"
proof (induction section_id all_lines i j v rule: imp_lookahead.induct)
  case (1 section_id all_lines i j v)
  show ?case
  proof (cases "j < length all_lines \<and> j < i + 50")
    case True
    show ?thesis
    proof (cases "imp_body section_id all_lines j v")
      case (Break v')
      with True show ?thesis
        by (subst imp_lookahead.simps) simp
    next
      case (Continue j' v')
      have "j' \<le> fst (imp_lookahead section_id all_lines i j' v')"
        using "1.IH" True Continue by blast
      moreover have "j < j'"
        using Continue by (rule imp_body_advances)
      ultimately show ?thesis
        using True Continue by (subst imp_lookahead.simps) simp
    qed
  next
    case False
    then show ?thesis
      by (subst imp_lookahead.simps) auto
  qed
qed

lemma imp_step_advances: "imp_step section_id all_lines (i, qs) = (i', qs') \<Longrightarrow> i < i'"
  using imp_lookahead_ge[of "i + 1" section_id all_lines i imp_init]
  by (auto simp: imp_step_def split: option.splits prod.splits)

function imp_loop :: "string \<Rightarrow> string list \<Rightarrow> nat \<times> question list \<Rightarrow> question list" where
  "imp_loop section_id all_lines st =
    (if fst st < length all_lines then imp_loop section_id all_lines (imp_step section_id all_lines st)
     else snd st)"
  by pat_completeness auto
termination
proof (relation "measure (\<lambda>(section_id, all_lines, st). length all_lines - fst st)")
  show "wf (measure (\<lambda>(section_id, all_lines, st). length all_lines - fst st))" by simp
next
  fix section_id :: string and all_lines :: "string list" and st :: "nat \<times> question list"
  assume a: "fst st < length all_lines"
  obtain i' qs' where s: "imp_step section_id all_lines (fst st, snd st) = (i', qs')"
    by (cases "imp_step section_id all_lines (fst st, snd st)") auto
  from imp_step_advances[OF s] a s
  show "((section_id, all_lines, imp_step section_id all_lines st), (section_id, all_lines, st))
        \<in> measure (\<lambda>(section_id, all_lines, st). length all_lines - fst st)"
    by simp
qed

declare imp_loop.simps [simp del]

text \<open>The questions of a document, from its lines (\<^verbatim>\<open>i = 0\<close>, \<^verbatim>\<open>questions = []\<close>).\<close>

definition imp_questions :: "string \<Rightarrow> string list \<Rightarrow> question list" where
  "imp_questions section_id all_lines = imp_loop section_id all_lines (0, [])"

section \<open>Section identifiers\<close>

text \<open>
  The section identifier that \<^verbatim>\<open>extract_questions_from_section\<close> is called with is a
  capital letter: \<^verbatim>\<open>main\<close> takes it from its list \<^verbatim>\<open>sections_to_extract\<close>, whose
  identifiers are \<^verbatim>\<open>'A'\<close> to \<^verbatim>\<open>'V'\<close>. The scripts splice the identifier into their
  regular expressions as it is (an f-string, no \<^verbatim>\<open>re.escape\<close>); a capital letter
  stands for itself there.
\<close>

datatype capital =
    Cap_A | Cap_B | Cap_C | Cap_D | Cap_E | Cap_F | Cap_G | Cap_H | Cap_I
  | Cap_J | Cap_K | Cap_L | Cap_M | Cap_N | Cap_O | Cap_P | Cap_Q | Cap_R
  | Cap_S | Cap_T | Cap_U | Cap_V | Cap_W | Cap_X | Cap_Y | Cap_Z

fun capital_char :: "capital \<Rightarrow> char" where
  "capital_char Cap_A = CHR ''A''"
| "capital_char Cap_B = CHR ''B''"
| "capital_char Cap_C = CHR ''C''"
| "capital_char Cap_D = CHR ''D''"
| "capital_char Cap_E = CHR ''E''"
| "capital_char Cap_F = CHR ''F''"
| "capital_char Cap_G = CHR ''G''"
| "capital_char Cap_H = CHR ''H''"
| "capital_char Cap_I = CHR ''I''"
| "capital_char Cap_J = CHR ''J''"
| "capital_char Cap_K = CHR ''K''"
| "capital_char Cap_L = CHR ''L''"
| "capital_char Cap_M = CHR ''M''"
| "capital_char Cap_N = CHR ''N''"
| "capital_char Cap_O = CHR ''O''"
| "capital_char Cap_P = CHR ''P''"
| "capital_char Cap_Q = CHR ''Q''"
| "capital_char Cap_R = CHR ''R''"
| "capital_char Cap_S = CHR ''S''"
| "capital_char Cap_T = CHR ''T''"
| "capital_char Cap_U = CHR ''U''"
| "capital_char Cap_V = CHR ''V''"
| "capital_char Cap_W = CHR ''W''"
| "capital_char Cap_X = CHR ''X''"
| "capital_char Cap_Y = CHR ''Y''"
| "capital_char Cap_Z = CHR ''Z''"

definition capital_text :: "capital \<Rightarrow> string" where
  "capital_text section_id = [capital_char section_id]"

section \<open>\<^verbatim>\<open>extractRealQuestions.py\<close>\<close>

text \<open>
  \<^verbatim>\<open>rf'{section_id}\.(\d+)'\<close>, searched for in a line, with the capital letter of the
  section for \<^verbatim>\<open>{section_id}\<close>; \<^verbatim>\<open>r'Answered by:\s*([^\d]+)'\<close>;
  and the two option patterns
  \<^verbatim>\<open>r'(Yes,[^N]+(?:requirements|program|policy|plan|controls?|procedures?|processes?))'\<close>
  and the same with \<^verbatim>\<open>No,\<close>.
\<close>

definition rq_question_pattern :: "capital \<Rightarrow> rx" where
  "rq_question_pattern section_id = Seqs [Str (capital_text section_id), Lit CHR ''.'', Grp 1 (Plus Digit)]"

definition rq_answered_by_pattern :: rx where
  "rq_answered_by_pattern =
     Seqs [Str ''Answered by:'', Star Space, Grp 1 (Plus (Cls (\<lambda>c. \<not> is_digit c)))]"

definition option_keywords :: rx where
  "option_keywords =
     Alts [Str ''requirements'', Str ''program'', Str ''policy'', Str ''plan'',
           Seq (Str ''control'') (Opt (Lit CHR ''s'')),
           Seq (Str ''procedure'') (Opt (Lit CHR ''s'')),
           Seq (Str ''processe'') (Opt (Lit CHR ''s''))]"

definition option_pattern :: "string \<Rightarrow> rx" where
  "option_pattern start =
     Grp 1 (Seqs [Str start, Plus (Cls (\<lambda>c. c \<noteq> CHR ''N'')), option_keywords])"

text \<open>
  \<^verbatim>\<open>for opt in found: if opt not in options: options.append(opt.strip())\<close>.
\<close>

definition add_options :: "string list \<Rightarrow> string list \<Rightarrow> string list" where
  "add_options opts found =
     foldl (\<lambda>os opt. if opt \<in> set os then os else os @ [strip opt]) opts found"

text \<open>The local variables of the look-ahead loop of \<^verbatim>\<open>extract_questions_from_section\<close>.\<close>

record rq_vars =
  rq_question_text :: string
  rq_help_text :: "string option"
  rq_options :: "string list"
  rq_collecting_question :: bool
  rq_collecting_options :: bool

definition rq_init :: rq_vars where
  "rq_init = \<lparr>rq_question_text = [], rq_help_text = None, rq_options = [],
     rq_collecting_question = True, rq_collecting_options = False\<rparr>"

text \<open>Lines 112 to 131: the options of one line, and whether the line ends the look-ahead.\<close>

definition rq_options_part :: "string \<Rightarrow> nat \<Rightarrow> rq_vars \<Rightarrow> rq_vars ctl" where
  "rq_options_part next_line j v =
    (if sublist ''Please select'' next_line \<or> rq_collecting_options v then
       (let o1 = add_options (rq_options v) (findall (option_pattern ''Yes,'') next_line);
            o2 = add_options o1 (findall (option_pattern ''No,'') next_line);
            o3 = (if sublist ''Not applicable'' next_line \<and> ''Not applicable'' \<notin> set o2
                  then o2 @ [''Not applicable''] else o2)
        in if sublist ''Show possible answers'' next_line \<or> sublist ''Comments'' next_line
           then Break (v\<lparr>rq_options := o3, rq_collecting_options := False\<rparr>)
           else Continue (j + 1) (v\<lparr>rq_options := o3, rq_collecting_options := True\<rparr>))
     else Continue (j + 1) v)"

text \<open>
  One round of \<^verbatim>\<open>while j < len(lines) and j < i + 30\<close> (lines 75 to 133), for the
  question that starts at line \<open>i\<close>.
\<close>

definition rq_body :: "capital \<Rightarrow> string list \<Rightarrow> nat \<Rightarrow> nat \<Rightarrow> rq_vars \<Rightarrow> rq_vars ctl" where
  "rq_body section_id lines i j v =
    (let next_line = lines ! j in
     if re_search (rq_question_pattern section_id) next_line \<noteq> None \<and> j > i + 2 then Break v
     else if rq_collecting_question v \<and> sublist ''Help Text'' next_line then
       (let parts = split ''Help Text'' next_line;
            v1 = (if strip (parts ! 0) \<noteq> []
                  then v\<lparr>rq_question_text := rq_question_text v @ '' '' @ strip (parts ! 0)\<rparr>
                  else v);
            v2 = v1\<lparr>rq_collecting_question := False\<rparr>
        in if length parts > 1 \<and> strip (parts ! 1) \<noteq> []
              \<and> \<not> sublist ''Please select'' (parts ! 1)
           then Continue (j + 1) (v2\<lparr>rq_help_text := Some (strip (parts ! 1))\<rparr>)
           else Continue (j + 1) v2)
     else if rq_collecting_question v \<and> sublist ''Please select'' next_line then
       (let parts = split ''Please select'' next_line;
            v1 = (if strip (parts ! 0) \<noteq> []
                  then v\<lparr>rq_question_text := rq_question_text v @ '' '' @ strip (parts ! 0)\<rparr>
                  else v)
        in Continue (j + 1) (v1\<lparr>rq_collecting_question := False, rq_collecting_options := True\<rparr>))
     else if rq_collecting_question v \<and> next_line \<noteq> []
             \<and> \<not> prefix ''Data Location'' next_line then
       rq_options_part next_line j
         (v\<lparr>rq_question_text := rq_question_text v @ '' '' @ next_line,
            rq_collecting_question := (CHR ''?'' \<notin> set next_line)\<rparr>)
     else rq_options_part next_line j v)"

lemma rq_body_advances:
  "rq_body section_id lines i j v = Continue j' v' \<Longrightarrow> j < j'"
  by (auto simp: rq_body_def rq_options_part_def Let_def split: if_splits)

function rq_lookahead :: "capital \<Rightarrow> string list \<Rightarrow> nat \<Rightarrow> nat \<Rightarrow> rq_vars \<Rightarrow> nat \<times> rq_vars" where
  "rq_lookahead section_id lines i j v =
    (if j < length lines \<and> j < i + 30 then
       (case rq_body section_id lines i j v of
          Break v' \<Rightarrow> (j, v')
        | Continue j' v' \<Rightarrow> rq_lookahead section_id lines i j' v')
     else (j, v))"
  by pat_completeness auto
termination
  by (relation "measure (\<lambda>(section_id, lines, i, j, v). length lines - j)")
     (auto dest: rq_body_advances)

declare rq_lookahead.simps [simp del]

text \<open>
  Lines 51 to 63 and 135 to 152: the questions appended for the question that starts at
  line \<open>i\<close>, one or none.
\<close>

definition rq_emit :: "capital \<Rightarrow> string \<Rightarrow> string \<Rightarrow> rq_vars \<Rightarrow> question list" where
  "rq_emit section_id line q_num v =
    (let answered_by =
           (if sublist ''Answered by:'' line
            then map_option (\<lambda>m. strip (group m 1)) (re_search rq_answered_by_pattern line)
            else None);
         answered_date =
           (if sublist ''Date:'' line
            then map_option (\<lambda>m. group m 1) (re_search date_pattern line)
            else None);
         question_text = re_sub (Plus Space) '' '' (strip (rq_question_text v))
     in if question_text \<noteq> [] \<and> \<not> prefix ''Data Location'' question_text then
          [\<lparr>questionId = capital_text section_id @ ''.'' @ q_num,
            questionText = question_text,
            helpText = rq_help_text v,
            answerType = ''single-choice'',
            options = rq_options v,
            givenAnswer = \<lparr>selectedOption = None, comments = None,
                            answeredBy = answered_by, answeredDate = answered_date\<rparr>\<rparr>]
        else [])"

text \<open>One round of \<^verbatim>\<open>while i < len(lines)\<close> (lines 40 to 157).\<close>

definition rq_step :: "capital \<Rightarrow> string list \<Rightarrow> nat \<times> question list \<Rightarrow> nat \<times> question list" where
  "rq_step section_id lines st =
    (case st of (i, questions) \<Rightarrow>
      (case re_search (rq_question_pattern section_id) (lines ! i) of
         Some q_match \<Rightarrow>
           (case rq_lookahead section_id lines i (i + 1) rq_init of
              (j, v) \<Rightarrow> (j, questions @ rq_emit section_id (lines ! i) (group q_match 1) v))
       | None \<Rightarrow> (i + 1, questions)))"

lemma rq_lookahead_ge: "j \<le> fst (rq_lookahead section_id lines i j v)"
proof (induction section_id lines i j v rule: rq_lookahead.induct)
  case (1 section_id lines i j v)
  show ?case
  proof (cases "j < length lines \<and> j < i + 30")
    case True
    show ?thesis
    proof (cases "rq_body section_id lines i j v")
      case (Break v')
      with True show ?thesis
        by (subst rq_lookahead.simps) simp
    next
      case (Continue j' v')
      have "j' \<le> fst (rq_lookahead section_id lines i j' v')"
        using "1.IH" True Continue by blast
      moreover have "j < j'"
        using Continue by (rule rq_body_advances)
      ultimately show ?thesis
        using True Continue by (subst rq_lookahead.simps) simp
    qed
  next
    case False
    then show ?thesis
      by (subst rq_lookahead.simps) auto
  qed
qed

lemma rq_step_advances: "rq_step section_id lines (i, qs) = (i', qs') \<Longrightarrow> i < i'"
  using rq_lookahead_ge[of "i + 1" section_id lines i rq_init]
  by (auto simp: rq_step_def split: option.splits prod.splits)

function rq_loop :: "capital \<Rightarrow> string list \<Rightarrow> nat \<times> question list \<Rightarrow> question list" where
  "rq_loop section_id lines st =
    (if fst st < length lines then rq_loop section_id lines (rq_step section_id lines st)
     else snd st)"
  by pat_completeness auto
termination
proof (relation "measure (\<lambda>(section_id, lines, st). length lines - fst st)")
  show "wf (measure (\<lambda>(section_id, lines, st). length lines - fst st))" by simp
next
  fix section_id :: capital and lines :: "string list" and st :: "nat \<times> question list"
  assume a: "fst st < length lines"
  obtain i' qs' where s: "rq_step section_id lines (fst st, snd st) = (i', qs')"
    by (cases "rq_step section_id lines (fst st, snd st)") auto
  from rq_step_advances[OF s] a s
  show "((section_id, lines, rq_step section_id lines st), (section_id, lines, st))
        \<in> measure (\<lambda>(section_id, lines, st). length lines - fst st)"
    by simp
qed

declare rq_loop.simps [simp del]

definition rq_questions :: "capital \<Rightarrow> string list \<Rightarrow> question list" where
  "rq_questions section_id lines = rq_loop section_id lines (0, [])"

section \<open>\<^verbatim>\<open>extractFord2024Survey.py\<close>\<close>

text \<open>
  The question dictionaries of this script carry one more key, \<^verbatim>\<open>scoring\<close>, a dictionary
  of the two values \<^verbatim>\<open>likelihood\<close> and \<^verbatim>\<open>overallImpact\<close>, each an integer or \<^verbatim>\<open>None\<close>.
\<close>

record scoring =
  likelihood :: "int option"
  overallImpact :: "int option"

record scored_question = question +
  scoring :: scoring

text \<open>
  The patterns of the script, in the order of the source:
  \<^verbatim>\<open>rf'{section_id}\.([\dA-Z.]+)'\<close> (with \<open>qualifier_char\<close> for the class
  \<^verbatim>\<open>[\dA-Z.]\<close>),
  \<^verbatim>\<open>rf'{section_id}\.{re.escape(q_num)}\s+(.+?)(?:Answered by:|$)'\<close>,
  \<^verbatim>\<open>r'Answered by:\s*([A-Za-z\s]+?)(?:Date:|$)'\<close>,
  \<^verbatim>\<open>r'Date:\s*(\d{2}/\d{2}/\d{4})'\<close>,
  \<^verbatim>\<open>r'Likelihood:\s*(\d+),\s*Overall impact:\s*(\d+)'\<close>,
  \<^verbatim>\<open>rf'\d+\.\s+{section_id}\.{re.escape(q_num)}\s+(.+?)(?:Help Text|$)'\<close>,
  \<^verbatim>\<open>r'(Yes,[^N]+?)(?=No,|Not applicable|Show possible)'\<close> and
  \<^verbatim>\<open>r'(No,[^N]+?)(?=Not applicable|Show possible|Comments)'\<close>.
  A question number is made of digits, capitals and dots, so \<^verbatim>\<open>re.escape\<close> leaves a
  pattern that matches it letter by letter. The section identifier is spliced in without
  \<^verbatim>\<open>re.escape\<close>; it is a capital letter, which is a pattern that matches itself.
\<close>

definition qualifier_char :: "char \<Rightarrow> bool" where
  "qualifier_char c = (is_digit c \<or> is_upper c \<or> c = CHR ''.'')"

definition fd_question_pattern :: "capital \<Rightarrow> rx" where
  "fd_question_pattern section_id =
     Seqs [Str (capital_text section_id), Lit CHR ''.'', Grp 1 (Plus (Cls qualifier_char))]"

definition fd_answer_pattern :: "capital \<Rightarrow> string \<Rightarrow> rx" where
  "fd_answer_pattern section_id q_num =
     Seqs [Str (capital_text section_id), Lit CHR ''.'', Str q_num, Plus Space, Grp 1 (LPlus Dot),
           Alt (Str ''Answered by:'') Eol]"

definition fd_answered_by_pattern :: rx where
  "fd_answered_by_pattern =
     Seqs [Str ''Answered by:'', Star Space,
           Grp 1 (LPlus (Cls (\<lambda>c. is_upper c \<or> is_lower c \<or> is_space c))),
           Alt (Str ''Date:'') Eol]"

definition fd_date_pattern :: rx where
  "fd_date_pattern = Seqs [Str ''Date:'', Star Space, date_pattern]"

definition score_pattern :: rx where
  "score_pattern =
     Seqs [Str ''Likelihood:'', Star Space, Grp 1 (Plus Digit), Lit CHR '','', Star Space,
           Str ''Overall impact:'', Star Space, Grp 2 (Plus Digit)]"

definition fd_same_line_pattern :: "capital \<Rightarrow> string \<Rightarrow> rx" where
  "fd_same_line_pattern section_id q_num =
     Seqs [Plus Digit, Lit CHR ''.'', Plus Space, Str (capital_text section_id), Lit CHR ''.'', Str q_num,
           Plus Space, Grp 1 (LPlus Dot), Alt (Str ''Help Text'') Eol]"

definition fd_yes_pattern :: rx where
  "fd_yes_pattern =
     Seqs [Grp 1 (Seq (Str ''Yes,'') (LPlus (Cls (\<lambda>c. c \<noteq> CHR ''N'')))),
           Look (Alts [Str ''No,'', Str ''Not applicable'', Str ''Show possible''])]"

definition fd_no_pattern :: rx where
  "fd_no_pattern =
     Seqs [Grp 1 (Seq (Str ''No,'') (LPlus (Cls (\<lambda>c. c \<noteq> CHR ''N'')))),
           Look (Alts [Str ''Not applicable'', Str ''Show possible'', Str ''Comments''])]"

text \<open>
  Lines 76 to 85: \<^verbatim>\<open>for j in range(i, scoring_search_range)\<close>, with \<open>hi\<close> the end of
  the range. The two values are set together, at the first line that the pattern matches.
\<close>

function fd_score_loop :: "string list \<Rightarrow> nat \<Rightarrow> nat \<Rightarrow> scoring" where
  "fd_score_loop lines hi j =
    (if j < hi then
       (let score_line = lines ! j in
        if sublist ''Likelihood:'' score_line \<and> sublist ''impact:'' score_line then
          (case re_search score_pattern score_line of
             Some score_match \<Rightarrow>
               \<lparr>likelihood = Some (int_of_digits (group score_match 1)),
                overallImpact = Some (int_of_digits (group score_match 2))\<rparr>
           | None \<Rightarrow> fd_score_loop lines hi (j + 1))
        else fd_score_loop lines hi (j + 1))
     else \<lparr>likelihood = None, overallImpact = None\<rparr>)"
  by pat_completeness auto
termination
  by (relation "measure (\<lambda>(lines, hi, j). hi - j)") auto

declare fd_score_loop.simps [simp del]

definition fd_scoring :: "string list \<Rightarrow> nat \<Rightarrow> scoring" where
  "fd_scoring lines i = fd_score_loop lines (min (i + 50) (length lines)) i"

text \<open>The values read from the start line itself (lines 50 to 74).\<close>

definition fd_selected_option :: "capital \<Rightarrow> string \<Rightarrow> string \<Rightarrow> string option" where
  "fd_selected_option section_id q_num line =
    (case re_search (fd_answer_pattern section_id q_num) line of
       Some answer_match \<Rightarrow>
         (let potential_answer = strip (group answer_match 1) in
          if \<not> starts_any [''Is there'', ''Does'', ''Has'', ''Have'', ''Are'', ''Do'', ''Will'']
                   potential_answer
          then Some potential_answer else None)
     | None \<Rightarrow> None)"

definition fd_answered_by :: "string \<Rightarrow> string option" where
  "fd_answered_by line =
    (if sublist ''Answered by:'' line
     then map_option (\<lambda>m. strip (group m 1)) (re_search fd_answered_by_pattern line)
     else None)"

definition fd_answered_date :: "string \<Rightarrow> string option" where
  "fd_answered_date line =
    (if sublist ''Date:'' line
     then map_option (\<lambda>m. group m 1) (re_search fd_date_pattern line)
     else None)"

definition fd_record :: "capital \<Rightarrow> string \<Rightarrow> string \<Rightarrow> string \<Rightarrow> string option \<Rightarrow> string list
    \<Rightarrow> string option \<Rightarrow> scoring \<Rightarrow> scored_question" where
  "fd_record section_id q_num line question_text help_text opts comms sc =
    \<lparr>questionId = capital_text section_id @ ''.'' @ q_num,
     questionText = question_text,
     helpText = help_text,
     answerType = ''single-choice'',
     options = opts,
     givenAnswer = \<lparr>selectedOption = fd_selected_option section_id q_num line,
                     comments = comms,
                     answeredBy = fd_answered_by line,
                     answeredDate = fd_answered_date line\<rparr>,
     scoring = sc\<rparr>"

text \<open>
  Lines 97 to 137, the single-line format: everything is read from the start line, whose
  question text is \<open>text\<close>, the group of the same-line pattern.
\<close>

definition fd_same_line :: "capital \<Rightarrow> string \<Rightarrow> string \<Rightarrow> string \<Rightarrow> scoring \<Rightarrow> scored_question list" where
  "fd_same_line section_id q_num line text sc =
    (let question_text = strip text;
         help_text =
           (if sublist ''Help Text'' line then
              (let help_parts = split1 ''Help Text'' line in
               if length help_parts > 1 \<and> sublist ''Please select'' (help_parts ! 1)
               then Some (strip (split ''Please select'' (help_parts ! 1) ! 0))
               else None)
            else None);
         o1 = (if sublist ''Yes,'' line then
                 (case re_search fd_yes_pattern line of
                    Some yes_match \<Rightarrow> [strip (group yes_match 1)] | None \<Rightarrow> [])
               else []);
         o2 = (if sublist ''No,'' line then
                 (case re_search fd_no_pattern line of
                    Some no_match \<Rightarrow> o1 @ [strip (group no_match 1)] | None \<Rightarrow> o1)
               else o1);
         o3 = (if sublist ''Not applicable'' line then o2 @ [''Not applicable''] else o2)
     in if question_text \<noteq> []
        then [fd_record section_id q_num line question_text help_text o3 None sc]
        else [])"

text \<open>The local variables of the multi-line look-ahead (lines 143 to 238).\<close>

record fd_vars =
  fd_question_text :: string
  fd_help_text :: "string option"
  fd_options :: "string list"
  fd_comments :: "string option"
  fd_collecting_question :: bool
  fd_collecting_options :: bool
  fd_collecting_comments :: bool

definition fd_init :: fd_vars where
  "fd_init = \<lparr>fd_question_text = [], fd_help_text = None, fd_options = [],
     fd_comments = None, fd_collecting_question = True, fd_collecting_options = False,
     fd_collecting_comments = False\<rparr>"

text \<open>
  Lines 197 to 203 and 211 to 217: \<^verbatim>\<open>while k < len(lines) and not
  lines[k].startswith(stops)\<close>, which adds the lines that continue an option.
\<close>

function fd_continuation :: "capital \<Rightarrow> string list \<Rightarrow> string list \<Rightarrow> nat \<Rightarrow> string \<Rightarrow> nat \<times> string" where
  "fd_continuation section_id lines stops k opt =
    (if k < length lines \<and> \<not> starts_any stops (lines ! k) then
       (if lines ! k \<noteq> [] \<and> re_search (fd_question_pattern section_id) (lines ! k) = None
        then fd_continuation section_id lines stops (k + 1) (opt @ '' '' @ lines ! k)
        else (k, opt))
     else (k, opt))"
  by pat_completeness auto
termination
  by (relation "measure (\<lambda>(section_id, lines, stops, k, opt). length lines - k)") auto

declare fd_continuation.simps [simp del]

lemma fd_continuation_ge: "k \<le> fst (fd_continuation section_id lines stops k opt)"
proof (induction section_id lines stops k opt rule: fd_continuation.induct)
  case (1 section_id lines stops k opt)
  show ?case
  proof (cases "k < length lines \<and> \<not> starts_any stops (lines ! k)
      \<and> lines ! k \<noteq> [] \<and> re_search (fd_question_pattern section_id) (lines ! k) = None")
    case True
    then have "k + 1 \<le> fst (fd_continuation section_id lines stops (k + 1) (opt @ '' '' @ lines ! k))"
      using "1.IH" by blast
    with True show ?thesis
      by (subst fd_continuation.simps) simp
  next
    case False
    then show ?thesis
      by (subst fd_continuation.simps) auto
  qed
qed

text \<open>
  Lines 189 to 228: the options of the line at \<open>j\<close>; the result is the index \<open>j\<close> as the
  block leaves it, and the local variables.
\<close>

definition fd_options_part :: "capital \<Rightarrow> string list \<Rightarrow> nat \<Rightarrow> fd_vars \<Rightarrow> nat \<times> fd_vars" where
  "fd_options_part section_id lines j v =
    (let next_line = lines ! j in
     if fd_collecting_options v \<or> sublist ''Please select'' next_line then
       (let v1 = v\<lparr>fd_collecting_options := True\<rparr>;
            (j1, v2) =
              (if prefix ''Yes,'' next_line then
                 (case fd_continuation section_id lines
                         [''No,'', ''Not applicable'', ''Show possible'', ''Comments'']
                         (j + 1) next_line of
                    (k, yes_opt) \<Rightarrow>
                      (k - 1, if yes_opt \<in> set (fd_options v1) then v1
                              else v1\<lparr>fd_options := fd_options v1 @ [strip yes_opt]\<rparr>))
               else if prefix ''No,'' next_line then
                 (case fd_continuation section_id lines
                         [''Yes,'', ''Not applicable'', ''Show possible'', ''Comments'']
                         (j + 1) next_line of
                    (k, no_opt) \<Rightarrow>
                      (k - 1, if no_opt \<in> set (fd_options v1) then v1
                              else v1\<lparr>fd_options := fd_options v1 @ [strip no_opt]\<rparr>))
               else if next_line = ''Not applicable''
                       \<and> ''Not applicable'' \<notin> set (fd_options v1) then
                 (j, v1\<lparr>fd_options := fd_options v1 @ [''Not applicable'']\<rparr>)
               else (j, v1))
        in if sublist ''Show possible answers'' next_line \<or> next_line = ''Comments'' then
             (j1, v2\<lparr>fd_collecting_options := False,
                       fd_collecting_comments :=
                         (next_line = ''Comments'' \<or> fd_collecting_comments v2)\<rparr>)
           else (j1, v2))
     else (j, v))"

text \<open>Lines 230 to 238: the comment after a \<^verbatim>\<open>Comments\<close> line, and the step of \<open>j\<close>.\<close>

definition fd_comments_part :: "string list \<Rightarrow> string \<Rightarrow> nat \<times> fd_vars \<Rightarrow> fd_vars ctl" where
  "fd_comments_part lines next_line jv =
    (case jv of (j, v) \<Rightarrow>
      if next_line = ''Comments'' then
        (let v1 = v\<lparr>fd_collecting_comments := True\<rparr> in
         if j + 1 < length lines
            \<and> \<not> starts_any [''Data Location'', ''Likelihood''] (lines ! (j + 1))
         then Continue (j + 1) (v1\<lparr>fd_comments := Some (lines ! (j + 1))\<rparr>)
         else Continue (j + 1) v1)
      else Continue (j + 1) v)"

text \<open>One round of \<^verbatim>\<open>while j < len(lines) and j < i + 40\<close> (lines 149 to 238).\<close>

definition fd_body :: "capital \<Rightarrow> string list \<Rightarrow> nat \<Rightarrow> nat \<Rightarrow> fd_vars \<Rightarrow> fd_vars ctl" where
  "fd_body section_id lines i j v =
    (let next_line = lines ! j in
     if re_search (fd_question_pattern section_id) next_line \<noteq> None \<and> j > i + 2 then Break v
     else if prefix ''Data Location:'' next_line \<or> prefix ''Create a new task'' next_line
     then Break v
     else if fd_collecting_question v \<and> sublist ''Help Text'' next_line then
       (let parts = split ''Help Text'' next_line;
            v1 = (if strip (parts ! 0) \<noteq> []
                  then v\<lparr>fd_question_text := fd_question_text v @ '' '' @ strip (parts ! 0)\<rparr>
                  else v);
            v2 = v1\<lparr>fd_collecting_question := False\<rparr>
        in if length parts > 1 \<and> strip (parts ! 1) \<noteq> []
              \<and> \<not> prefix ''Please select'' (strip (parts ! 1))
           then
             (let remaining = strip (parts ! 1) in
              Continue (j + 1)
                (v2\<lparr>fd_help_text :=
                      Some (if sublist ''Please select'' remaining
                            then strip (split ''Please select'' remaining ! 0)
                            else remaining)\<rparr>))
           else Continue (j + 1) v2)
     else if fd_collecting_question v \<and> sublist ''Please select'' next_line then
       (let parts = split ''Please select'' next_line;
            v1 = (if strip (parts ! 0) \<noteq> []
                  then v\<lparr>fd_question_text := fd_question_text v @ '' '' @ strip (parts ! 0)\<rparr>
                  else v)
        in Continue (j + 1) (v1\<lparr>fd_collecting_question := False, fd_collecting_options := True\<rparr>))
     else if fd_collecting_question v \<and> next_line \<noteq> []
             \<and> \<not> starts_any [''Data Location'', ''Comments'', ''Likelihood''] next_line then
       fd_comments_part lines next_line
         (fd_options_part section_id lines j
            (v\<lparr>fd_question_text := fd_question_text v @ '' '' @ next_line,
               fd_collecting_question := (CHR ''?'' \<notin> set next_line)\<rparr>))
     else fd_comments_part lines next_line (fd_options_part section_id lines j v))"

lemma fd_options_part_ge: "j \<le> fst (fd_options_part section_id lines j v)"
  using fd_continuation_ge[of "j + 1" section_id lines
          "[''No,'', ''Not applicable'', ''Show possible'', ''Comments'']" "lines ! j"]
        fd_continuation_ge[of "j + 1" section_id lines
          "[''Yes,'', ''Not applicable'', ''Show possible'', ''Comments'']" "lines ! j"]
  by (auto simp: fd_options_part_def Let_def split: prod.splits if_splits)

lemma fd_comments_part_advances:
  "fd_comments_part lines next_line (j, v) = Continue j' v' \<Longrightarrow> j < j'"
  by (auto simp: fd_comments_part_def Let_def split: if_splits)

lemma fd_body_advances:
  assumes "fd_body section_id lines i j v = Continue j' v'"
  shows "j < j'"
proof -
  have part: "fd_comments_part lines l (fd_options_part section_id lines j w) = Continue j' v'
      \<Longrightarrow> j < j'" for l w
    using fd_options_part_ge[of j section_id lines w]
      fd_comments_part_advances[of lines l "fst (fd_options_part section_id lines j w)"
        "snd (fd_options_part section_id lines j w)" j' v']
    by simp
  from assms show ?thesis
    by (auto simp: fd_body_def Let_def split: if_splits dest: part)
qed

function fd_lookahead :: "capital \<Rightarrow> string list \<Rightarrow> nat \<Rightarrow> nat \<Rightarrow> fd_vars \<Rightarrow> nat \<times> fd_vars" where
  "fd_lookahead section_id lines i j v =
    (if j < length lines \<and> j < i + 40 then
       (case fd_body section_id lines i j v of
          Break v' \<Rightarrow> (j, v')
        | Continue j' v' \<Rightarrow> fd_lookahead section_id lines i j' v')
     else (j, v))"
  by pat_completeness auto
termination
  by (relation "measure (\<lambda>(section_id, lines, i, j, v). length lines - j)")
     (auto dest: fd_body_advances)

declare fd_lookahead.simps [simp del]

text \<open>Lines 240 to 261: the questions appended after the multi-line look-ahead.\<close>

definition fd_emit :: "capital \<Rightarrow> string \<Rightarrow> string \<Rightarrow> fd_vars \<Rightarrow> scoring \<Rightarrow> scored_question list" where
  "fd_emit section_id q_num line v sc =
    (let question_text = re_sub (Plus Space) '' '' (strip (fd_question_text v))
     in if question_text \<noteq> [] \<and> \<not> prefix ''Data Location'' question_text
        then [fd_record section_id q_num line question_text (fd_help_text v) (fd_options v)
                (fd_comments v) sc]
        else [])"

text \<open>One round of \<^verbatim>\<open>while i < len(lines)\<close> (lines 40 to 266).\<close>

definition fd_step :: "capital \<Rightarrow> string list \<Rightarrow> nat \<times> scored_question list \<Rightarrow> nat \<times> scored_question list" where
  "fd_step section_id lines st =
    (case st of (i, questions) \<Rightarrow>
      (let line = lines ! i in
       case re_search (fd_question_pattern section_id) line of
         Some q_match \<Rightarrow>
           (let q_num = group q_match 1;
                sc = fd_scoring lines i
            in case re_search (fd_same_line_pattern section_id q_num) line of
                 Some same_line_q_match \<Rightarrow>
                   (i + 1, questions
                      @ fd_same_line section_id q_num line (group same_line_q_match 1) sc)
               | None \<Rightarrow>
                   (case fd_lookahead section_id lines i (i + 1) fd_init of
                      (j, v) \<Rightarrow> (j, questions @ fd_emit section_id q_num line v sc)))
       | None \<Rightarrow> (i + 1, questions)))"

lemma fd_lookahead_ge: "j \<le> fst (fd_lookahead section_id lines i j v)"
proof (induction section_id lines i j v rule: fd_lookahead.induct)
  case (1 section_id lines i j v)
  show ?case
  proof (cases "j < length lines \<and> j < i + 40")
    case True
    show ?thesis
    proof (cases "fd_body section_id lines i j v")
      case (Break v')
      with True show ?thesis
        by (subst fd_lookahead.simps) simp
    next
      case (Continue j' v')
      have "j' \<le> fst (fd_lookahead section_id lines i j' v')"
        using "1.IH" True Continue by blast
      moreover have "j < j'"
        using Continue by (rule fd_body_advances)
      ultimately show ?thesis
        using True Continue by (subst fd_lookahead.simps) simp
    qed
  next
    case False
    then show ?thesis
      by (subst fd_lookahead.simps) auto
  qed
qed

lemma fd_step_advances: "fd_step section_id lines (i, qs) = (i', qs') \<Longrightarrow> i < i'"
  using fd_lookahead_ge[of "i + 1" section_id lines i fd_init]
  by (auto simp: fd_step_def Let_def split: option.splits prod.splits)

function fd_loop :: "capital \<Rightarrow> string list \<Rightarrow> nat \<times> scored_question list \<Rightarrow> scored_question list" where
  "fd_loop section_id lines st =
    (if fst st < length lines then fd_loop section_id lines (fd_step section_id lines st)
     else snd st)"
  by pat_completeness auto
termination
proof (relation "measure (\<lambda>(section_id, lines, st). length lines - fst st)")
  show "wf (measure (\<lambda>(section_id, lines, st). length lines - fst st))" by simp
next
  fix section_id :: capital and lines :: "string list" and st :: "nat \<times> scored_question list"
  assume a: "fst st < length lines"
  obtain i' qs' where s: "fd_step section_id lines (fst st, snd st) = (i', qs')"
    by (cases "fd_step section_id lines (fst st, snd st)") auto
  from fd_step_advances[OF s] a s
  show "((section_id, lines, fd_step section_id lines st), (section_id, lines, st))
        \<in> measure (\<lambda>(section_id, lines, st). length lines - fst st)"
    by simp
qed

declare fd_loop.simps [simp del]

definition fd_questions :: "capital \<Rightarrow> string list \<Rightarrow> scored_question list" where
  "fd_questions section_id lines = fd_loop section_id lines (0, [])"

section \<open>\<^verbatim>\<open>parseFordSurvey.py\<close>\<close>

text \<open>
  Line 87: \<^verbatim>\<open>re.match(r'^(?:\d+\.\s*)?([A-Z])\.(\d+)$', line)\<close>. The section letter of
  the document does not occur in the pattern; the identifier of the question is made of
  the two groups.
\<close>

definition pfs_question_pattern :: rx where
  "pfs_question_pattern =
     Seqs [Opt (Seqs [Plus Digit, Lit CHR ''.'', Star Space]), Grp 1 (Cls is_upper),
           Lit CHR ''.'', Grp 2 (Plus Digit), Eol]"

text \<open>\<^verbatim>\<open>s.replace(old, '')\<close>, for a non-empty \<open>old\<close>.\<close>

definition remove_all :: "string \<Rightarrow> string \<Rightarrow> string" where
  "remove_all old s = concat (split old s)"

text \<open>
  The variables of the loop of lines 83 to 183: \<^verbatim>\<open>current_question\<close>,
  \<^verbatim>\<open>collecting_options\<close> and the list \<^verbatim>\<open>questions\<close>.
\<close>

record pfs_state =
  pfs_current :: "question option"
  pfs_collecting_options :: bool
  pfs_questions :: "question list"

text \<open>
  Lines 113 to 123: the lines of the question text, up to the first line that is one of
  four markers, starts with \<^verbatim>\<open>Answered by:\<close> or \<^verbatim>\<open>Date:\<close>, or is a question line.
\<close>

function pfs_question_text :: "string list \<Rightarrow> nat \<Rightarrow> string list \<Rightarrow> nat \<times> string list" where
  "pfs_question_text lines i question_lines =
    (if i < length lines then
       (let next_line = lines ! i in
        if next_line \<in> set [''Help Text'', ''Please select'', ''Show possible answers'',
                               ''Answered by:'']
           \<or> prefix ''Answered by:'' next_line \<or> prefix ''Date:'' next_line
           \<or> re_match pfs_question_pattern next_line \<noteq> None
        then (i, question_lines)
        else pfs_question_text lines (i + 1) (question_lines @ [next_line]))
     else (i, question_lines))"
  by pat_completeness auto
termination
  by (relation "measure (\<lambda>(lines, i, question_lines). length lines - i)") auto

declare pfs_question_text.simps [simp del]

lemma pfs_question_text_ge: "i \<le> fst (pfs_question_text lines i question_lines)"
proof (induction lines i question_lines rule: pfs_question_text.induct)
  case (1 lines i question_lines)
  show ?case
  proof (cases "i < length lines
      \<and> \<not> (lines ! i \<in> set [''Help Text'', ''Please select'', ''Show possible answers'',
                               ''Answered by:'']
           \<or> prefix ''Answered by:'' (lines ! i) \<or> prefix ''Date:'' (lines ! i)
           \<or> re_match pfs_question_pattern (lines ! i) \<noteq> None)")
    case True
    then have "i + 1 \<le> fst (pfs_question_text lines (i + 1) (question_lines @ [lines ! i]))"
      using "1.IH"[of "lines ! i"] by simp
    with True show ?thesis
      by (subst pfs_question_text.simps) (simp add: Let_def)
  next
    case False
    then show ?thesis
      by (subst pfs_question_text.simps) (auto simp: Let_def)
  qed
qed

text \<open>
  Lines 175 to 181: the first option longer than 20 characters whose first 20 characters
  occur in the line is the selected option.
\<close>

definition pfs_selected :: "string list \<Rightarrow> string \<Rightarrow> string option \<Rightarrow> string option" where
  "pfs_selected opts line selected =
    (case find (\<lambda>option. length option > 20 \<and> sublist (take 20 option) line) opts of
       Some option \<Rightarrow> Some option
     | None \<Rightarrow> selected)"

text \<open>
  One round of \<^verbatim>\<open>while i < len(lines)\<close>. A question line saves the question in progress
  and opens a new one, whose text is collected at once and set as it is, empty or not.
  The round that ends the options on a marker line leaves the cursor where it is.
\<close>

definition pfs_step :: "string list \<Rightarrow> nat \<times> pfs_state \<Rightarrow> nat \<times> pfs_state" where
  "pfs_step lines s =
    (case s of (i, st) \<Rightarrow>
      (let line = lines ! i in
       case re_match pfs_question_pattern line of
         Some q_match \<Rightarrow>
           (let saved = (case pfs_current st of
                           Some q \<Rightarrow> pfs_questions st @ [q]
                         | None \<Rightarrow> pfs_questions st);
                current_question =
                  \<lparr>questionId = group q_match 1 @ ''.'' @ group q_match 2,
                   questionText = [], helpText = None, answerType = ''single-choice'',
                   options = [],
                   givenAnswer = \<lparr>selectedOption = None, comments = None, answeredBy = None,
                                   answeredDate = None\<rparr>\<rparr>
            in if i + 1 < length lines then
                 (case pfs_question_text lines (i + 1) [] of
                    (i', question_lines) \<Rightarrow>
                      (i', st\<lparr>pfs_current :=
                                 Some (current_question
                                         \<lparr>questionText := strip (join '' '' question_lines)\<rparr>),
                               pfs_questions := saved\<rparr>))
               else (i + 1, st\<lparr>pfs_current := Some current_question, pfs_questions := saved\<rparr>))
       | None \<Rightarrow>
           (case pfs_current st of
              None \<Rightarrow>
                (if sublist ''Please select'' line \<and> sublist ''following options'' line
                 then (i + 1, st\<lparr>pfs_collecting_options := True\<rparr>)
                 else (i + 1, st))
            | Some q \<Rightarrow>
                (if line = ''Help Text'' then
                   (if i + 1 < length lines
                       \<and> lines ! (i + 1) \<notin> set [''Please select'', ''Show possible answers'']
                    then (i + 2, st\<lparr>pfs_current := Some (q\<lparr>helpText := Some (lines ! (i + 1))\<rparr>)\<rparr>)
                    else (i + 1, st))
                 else if sublist ''Please select'' line \<and> sublist ''following options'' line then
                   (i + 1, st\<lparr>pfs_collecting_options := True\<rparr>)
                 else if pfs_collecting_options st then
                   (if prefix ''Yes,'' line \<or> prefix ''No,'' line \<or> line = ''Not applicable'' then
                      (i + 1, st\<lparr>pfs_current := Some (q\<lparr>options := options q @ [line]\<rparr>)\<rparr>)
                    else if line \<in> set [''Show possible answers'', ''Answered by:'']
                            \<or> prefix ''Answered by:'' line then
                      (i, st\<lparr>pfs_collecting_options := False\<rparr>)
                    else (i + 1, st))
                 else if prefix ''Answered by:'' line then
                   (let answered_by = strip (remove_all ''Answered by:'' line) in
                    if answered_by = [] \<and> i + 1 < length lines then
                      (let answered_by = strip (lines ! (i + 1)) in
                       (i + 2, st\<lparr>pfs_current := Some (q\<lparr>givenAnswer := (givenAnswer q)
                           \<lparr>answeredBy := (if answered_by \<noteq> [] then Some answered_by else None)\<rparr>\<rparr>)\<rparr>))
                    else
                      (i + 1, st\<lparr>pfs_current := Some (q\<lparr>givenAnswer := (givenAnswer q)
                           \<lparr>answeredBy := (if answered_by \<noteq> [] then Some answered_by else None)\<rparr>\<rparr>)\<rparr>))
                 else if prefix ''Date:'' line then
                   (let date_str = strip (remove_all ''Date:'' line) in
                    (i + 1, st\<lparr>pfs_current := Some (q\<lparr>givenAnswer := (givenAnswer q)
                         \<lparr>answeredDate := (if date_str \<noteq> [] then Some date_str else None)\<rparr>\<rparr>)\<rparr>))
                 else if line = ''Comments'' then
                   (if i + 1 < length lines
                       \<and> lines ! (i + 1) \<notin> set [''Data Location:'', ''Answered by:'']
                    then (i + 2, st\<lparr>pfs_current := Some (q\<lparr>givenAnswer := (givenAnswer q)
                         \<lparr>comments := Some (lines ! (i + 1))\<rparr>\<rparr>)\<rparr>)
                    else (i + 1, st))
                 else if options q \<noteq> [] then
                   (i + 1, st\<lparr>pfs_current := Some (q\<lparr>givenAnswer := (givenAnswer q)
                        \<lparr>selectedOption :=
                           pfs_selected (options q) line (selectedOption (givenAnswer q))\<rparr>\<rparr>)\<rparr>)
                 else (i + 1, st)))))"

text \<open>
  Every round moves the cursor forward, or leaves it and ends the collection of options.
\<close>

lemma pfs_step_progress:
  assumes "pfs_step lines (i, st) = (i', st')"
  shows "i < i' \<or> (i' = i \<and> pfs_collecting_options st \<and> \<not> pfs_collecting_options st')"
proof (cases "re_match pfs_question_pattern (lines ! i)")
  case (Some m)
  show ?thesis
  proof (cases "i + 1 < length lines")
    case True
    obtain j ql where t: "pfs_question_text lines (i + 1) [] = (j, ql)"
      by (cases "pfs_question_text lines (i + 1) []")
    with pfs_question_text_ge[of "i + 1" lines "[]"] have "i < j" by simp
    with assms Some True t show ?thesis
      by (auto simp: pfs_step_def Let_def)
  next
    case False
    with assms Some show ?thesis
      by (auto simp: pfs_step_def Let_def)
  qed
next
  case None
  with assms show ?thesis
    by (auto simp: pfs_step_def Let_def split: option.splits if_splits)
qed

function pfs_loop :: "string list \<Rightarrow> nat \<times> pfs_state \<Rightarrow> pfs_state" where
  "pfs_loop lines s =
    (if fst s < length lines then pfs_loop lines (pfs_step lines s) else snd s)"
  by pat_completeness auto
termination
proof (relation "measure (\<lambda>(lines, s).
    2 * (length lines - fst s) + (if pfs_collecting_options (snd s) then 1 else 0))")
  show "wf (measure (\<lambda>(lines, s).
    2 * (length lines - fst s) + (if pfs_collecting_options (snd s) then 1 else 0)))"
    by simp
next
  fix lines :: "string list" and s :: "nat \<times> pfs_state"
  assume lt: "fst s < length lines"
  obtain i' st' where st: "pfs_step lines (fst s, snd s) = (i', st')"
    by (cases "pfs_step lines (fst s, snd s)") auto
  from pfs_step_progress[OF st] lt
  show "((lines, pfs_step lines s), (lines, s)) \<in> measure (\<lambda>(lines, s).
    2 * (length lines - fst s) + (if pfs_collecting_options (snd s) then 1 else 0))"
    using st by auto
qed

declare pfs_loop.simps [simp del]

text \<open>The loop and lines 185 to 187: the question in progress at the end is saved too.\<close>

definition pfs_scan :: "string list \<Rightarrow> question list" where
  "pfs_scan lines =
    (let st = pfs_loop lines (0, \<lparr>pfs_current = None, pfs_collecting_options = False,
                                   pfs_questions = []\<rparr>)
     in case pfs_current st of
          Some q \<Rightarrow> pfs_questions st @ [q]
        | None \<Rightarrow> pfs_questions st)"

section \<open>Documents, sections and the batch runs\<close>

text \<open>
  A document is read from a file and flattened by the HTML library, which the scripts take
  as given: \<open>h1_text\<close> is the text of the first \<^verbatim>\<open>h1\<close> element, if there is one
  (\<^verbatim>\<open>h1.get_text(strip=True)\<close>), \<open>text_nl\<close> is \<^verbatim>\<open>soup.get_text(separator='\n')\<close>
  and \<open>text_plain\<close> is \<^verbatim>\<open>soup.get_text()\<close>. Opening or decoding a file may raise. The
  upload directory maps a file name to its file, if the file exists.
\<close>

datatype py_error = OSError | UnicodeDecodeError

record html =
  h1_text :: "string option"
  text_nl :: string
  text_plain :: string

datatype source_file = Unreadable py_error | Content html

type_synonym upload_dir = "string \<Rightarrow> source_file option"

text \<open>
  \<^verbatim>\<open>with open(file_path, 'r', encoding='utf-8') as f: html = f.read()\<close> and the parse of
  the text; \<open>Inl\<close> is the exception raised.
\<close>

definition read_html :: "upload_dir \<Rightarrow> string \<Rightarrow> py_error + html" where
  "read_html dir file_name =
    (case dir file_name of
       None \<Rightarrow> Inl OSError
     | Some (Unreadable e) \<Rightarrow> Inl e
     | Some (Content d) \<Rightarrow> Inr d)"

text \<open>The dictionary that a parse of one document returns.\<close>

record 'q section_result =
  sectionId :: string
  sectionName :: string
  riskLevel :: "string option"
  questions :: "'q list"

text \<open>
  The title patterns \<^verbatim>\<open>r'Section ([A-Z]):\s*(.+?)\s*-\s*\((.+?)\)'\<close>,
  \<^verbatim>\<open>r'Section ([A-Z])\s*-\s*(.+?)\s*-\s*\((.+?)\)'\<close> and
  \<^verbatim>\<open>r'Section ([A-Z])[:\s-]+(.+)'\<close>, and the pattern \<^verbatim>\<open>r'\s*-\s*\(.+?\)\s*$'\<close>
  that is cut from the name found by the third.
\<close>

definition title_pattern1 :: rx where
  "title_pattern1 =
     Seqs [Str ''Section '', Grp 1 (Cls is_upper), Lit CHR '':'', Star Space, Grp 2 (LPlus Dot),
           Star Space, Lit CHR ''-'', Star Space, Lit CHR ''('', Grp 3 (LPlus Dot), Lit CHR '')'']"

definition title_pattern2 :: rx where
  "title_pattern2 =
     Seqs [Str ''Section '', Grp 1 (Cls is_upper), Star Space, Lit CHR ''-'', Star Space,
           Grp 2 (LPlus Dot), Star Space, Lit CHR ''-'', Star Space, Lit CHR ''('',
           Grp 3 (LPlus Dot), Lit CHR '')'']"

definition title_pattern3 :: rx where
  "title_pattern3 =
     Seqs [Str ''Section '', Grp 1 (Cls is_upper),
           Plus (Cls (\<lambda>c. c = CHR '':'' \<or> is_space c \<or> c = CHR ''-'')), Grp 2 (Plus Dot)]"

definition trailing_risk_pattern :: rx where
  "trailing_risk_pattern =
     Seqs [Star Space, Lit CHR ''-'', Star Space, Lit CHR ''('', LPlus Dot, Lit CHR '')'',
           Star Space, Eol]"

text \<open>
  The match of the first or else the second title pattern, as both
  \<^verbatim>\<open>parse_html_file\<close> and \<^verbatim>\<open>extract_questions_from_section\<close> look for it.
\<close>

definition title_match :: "string \<Rightarrow> caps option" where
  "title_match title_text =
    (case re_search title_pattern1 title_text of
       Some m \<Rightarrow> Some m
     | None \<Rightarrow> re_search title_pattern2 title_text)"

subsection \<open>\<^verbatim>\<open>parseFordSurveyImproved.py\<close>: \<^verbatim>\<open>parse_html_file\<close> and \<^verbatim>\<open>main\<close>\<close>

text \<open>Lines 59 to 76: section identifier, name and risk level from the title, if any.\<close>

definition imp_title :: "string \<Rightarrow> (string \<times> string \<times> string option) option" where
  "imp_title title_text =
    (case title_match title_text of
       Some m \<Rightarrow> Some (group m 1, strip (group m 2), Some (strip (group m 3)))
     | None \<Rightarrow>
        (case re_search title_pattern3 title_text of
           Some m \<Rightarrow> Some (group m 1, re_sub trailing_risk_pattern [] (strip (group m 2)), None)
         | None \<Rightarrow> None))"

text \<open>
  The body of the \<^verbatim>\<open>try\<close> of \<^verbatim>\<open>parse_html_file\<close> (lines 46 to 235): it raises, or
  returns \<^verbatim>\<open>None\<close> (no \<^verbatim>\<open>h1\<close>, no title match) or the section.
\<close>

definition imp_try :: "upload_dir \<Rightarrow> string \<Rightarrow> py_error + question section_result option" where
  "imp_try dir file_name =
    (case read_html dir file_name of
       Inl e \<Rightarrow> Inl e
     | Inr d \<Rightarrow>
        (case h1_text d of
           None \<Rightarrow> Inr None
         | Some title_text \<Rightarrow>
            (case imp_title title_text of
               None \<Rightarrow> Inr None
             | Some (section_id, section_name, risk_level) \<Rightarrow>
                 Inr (Some \<lparr>sectionId = section_id, sectionName = section_name,
                            riskLevel = risk_level,
                            questions = imp_questions section_id (clean_lines (text_nl d))\<rparr>))))"

text \<open>\<^verbatim>\<open>parse_html_file\<close> with its \<^verbatim>\<open>except Exception\<close> (lines 237 to 241).\<close>

definition imp_parse_html_file :: "upload_dir \<Rightarrow> string \<Rightarrow> question section_result option" where
  "imp_parse_html_file dir file_name =
    (case imp_try dir file_name of Inl e \<Rightarrow> None | Inr r \<Rightarrow> r)"

definition SECTION_FILES :: "string list" where
  "SECTION_FILES =
    [''Section A.htm'', ''Section B.htm'', ''Section C.htm'', ''Section D.htm'',
     ''Section E.htm'', ''Section F.htm'', ''Section G.htm'', ''Section H.htm'',
     ''Section I.htm'', ''Section J.htm'', ''Section K.htm'', ''Section N.htm'',
     ''Section T.htm'', ''Section V.htm'']"

text \<open>
  What the loop of \<^verbatim>\<open>main\<close> (lines 253 to 271) builds: the list \<^verbatim>\<open>sections\<close>, and
  what it prints, the names of the files that failed to parse and of the files not found.
\<close>

record 'q batch =
  sections :: "'q section_result list"
  failed :: "string list"
  not_found :: "string list"

definition imp_file :: "upload_dir \<Rightarrow> 'q batch \<Rightarrow> string \<Rightarrow> (string \<Rightarrow> 'q section_result option) \<Rightarrow> 'q batch" where
  "imp_file dir b file_name parse =
    (case dir file_name of
       None \<Rightarrow> b\<lparr>not_found := not_found b @ [file_name]\<rparr>
     | Some f \<Rightarrow>
        (case parse file_name of
           Some sec \<Rightarrow> b\<lparr>sections := sections b @ [sec]\<rparr>
         | None \<Rightarrow> b\<lparr>failed := failed b @ [file_name]\<rparr>))"

definition imp_batch :: "upload_dir \<Rightarrow> string list \<Rightarrow> question batch" where
  "imp_batch dir files =
     foldl (\<lambda>b file_name. imp_file dir b file_name (imp_parse_html_file dir))
       \<lparr>sections = [], failed = [], not_found = []\<rparr> files"

text \<open>
  \<^verbatim>\<open>main\<close> up to the sort of line 277: the sorted sections that go into the survey, or
  nothing when the upload directory is missing or no section was parsed; with the batch.
\<close>

definition imp_main_files :: "upload_dir option \<Rightarrow> string list
    \<Rightarrow> question section_result list option \<times> question batch" where
  "imp_main_files upload files =
    (case upload of
       None \<Rightarrow> (None, \<lparr>sections = [], failed = [], not_found = []\<rparr>)
     | Some dir \<Rightarrow>
        (let b = imp_batch dir files in
         if sections b = [] then (None, b)
         else (Some (sort_key sectionId (sections b)), b)))"

definition imp_main :: "upload_dir option \<Rightarrow> question section_result list option \<times> question batch" where
  "imp_main upload = imp_main_files upload SECTION_FILES"

subsection \<open>\<^verbatim>\<open>extractRealQuestions.py\<close> and \<^verbatim>\<open>extractFord2024Survey.py\<close>\<close>

text \<open>
  \<^verbatim>\<open>extract_questions_from_section\<close> is the same in both scripts but for the scan; \<open>scan\<close>
  is \<open>rq_questions\<close> or \<open>fd_questions\<close>. First the body of the \<^verbatim>\<open>try\<close>, then the
  function with its \<^verbatim>\<open>except Exception\<close>.
\<close>

definition extract_try :: "(capital \<Rightarrow> string list \<Rightarrow> 'q list) \<Rightarrow> upload_dir \<Rightarrow> string \<Rightarrow> capital
    \<Rightarrow> py_error + 'q section_result" where
  "extract_try scan dir file_name section_id =
    (case read_html dir file_name of
       Inl e \<Rightarrow> Inl e
     | Inr d \<Rightarrow>
        (let lines = clean_lines (text_plain d);
             title_text = (case h1_text d of Some t \<Rightarrow> t | None \<Rightarrow> []);
             (section_name, risk_level) =
               (case title_match title_text of
                  Some m \<Rightarrow> (strip (group m 2), Some (strip (group m 3)))
                | None \<Rightarrow> (''Unknown'', None))
         in Inr \<lparr>sectionId = capital_text section_id, sectionName = section_name,
                  riskLevel = risk_level, questions = scan section_id lines\<rparr>))"

definition extract_questions_from_section :: "(capital \<Rightarrow> string list \<Rightarrow> 'q list) \<Rightarrow> upload_dir
    \<Rightarrow> string \<Rightarrow> capital \<Rightarrow> 'q section_result option" where
  "extract_questions_from_section scan dir file_name section_id =
    (case extract_try scan dir file_name section_id of
       Inl e \<Rightarrow> None
     | Inr section_data \<Rightarrow> Some section_data)"

text \<open>
  The dictionary \<^verbatim>\<open>all_sections\<close> keeps its keys in the order of their first insertion:
  a list of pairs. Lines 204 to 211 (317 to 323 in the 2024 script): a section whose
  identifier is already a key gives its questions to the entry of that key; another one
  becomes a new entry.
\<close>

fun merge_section :: "(string \<times> 'q section_result) list \<Rightarrow> string \<Rightarrow> 'q section_result \<Rightarrow> (string \<times> 'q section_result) list" where
  "merge_section [] section_id section_data = [(section_id, section_data)]"
| "merge_section ((k, e) # rest) section_id section_data =
     (if k = section_id
      then (k, e\<lparr>questions := questions e @ questions section_data\<rparr>) # rest
      else (k, e) # merge_section rest section_id section_data)"

definition extract_file :: "(string \<Rightarrow> capital \<Rightarrow> 'q section_result option) \<Rightarrow> upload_dir
    \<Rightarrow> (string \<times> 'q section_result) list \<Rightarrow> string \<times> capital \<Rightarrow> (string \<times> 'q section_result) list" where
  "extract_file extract dir all_sections entry =
    (case entry of (filename, section_id) \<Rightarrow>
      (case dir filename of
         None \<Rightarrow> all_sections
       | Some f \<Rightarrow>
          (case extract filename section_id of
             Some section_data \<Rightarrow> merge_section all_sections (capital_text section_id) section_data
           | None \<Rightarrow> all_sections)))"

text \<open>
  \<^verbatim>\<open>main\<close> up to \<^verbatim>\<open>sections_list = sorted(all_sections.values(), key=...)\<close>.
\<close>

definition extract_main :: "(string \<Rightarrow> capital \<Rightarrow> 'q section_result option) \<Rightarrow> upload_dir
    \<Rightarrow> (string \<times> capital) list \<Rightarrow> 'q section_result list" where
  "extract_main extract dir sections_to_extract =
     sort_key sectionId (map snd (foldl (extract_file extract dir) [] sections_to_extract))"

definition rq_sections_to_extract :: "(string \<times> capital) list" where
  "rq_sections_to_extract =
    [(''Section A.htm'', Cap_A), (''Section B.htm'', Cap_B), (''Section C.htm'', Cap_C),
     (''Section D.htm'', Cap_D), (''Section E.htm'', Cap_E), (''Section F.htm'', Cap_F),
     (''Section G.htm'', Cap_G), (''Section H.htm'', Cap_H), (''Section I.htm'', Cap_I),
     (''Section J.htm'', Cap_J), (''Section K.htm'', Cap_K), (''Section N.htm'', Cap_N),
     (''Section N (page 2).htm'', Cap_N), (''Section T.htm'', Cap_T), (''Section V.htm'', Cap_V)]"

definition fd_sections_to_extract :: "(string \<times> capital) list" where
  "fd_sections_to_extract =
    [(''Section A.htm'', Cap_A), (''Section B.htm'', Cap_B), (''Section C.htm'', Cap_C),
     (''Section D.htm'', Cap_D), (''Section E.htm'', Cap_E), (''Section F.htm'', Cap_F),
     (''Section G.htm'', Cap_G), (''Section H.htm'', Cap_H), (''Section I.htm'', Cap_I),
     (''Section J.htm'', Cap_J), (''Section K.htm'', Cap_K), (''Section M.htm'', Cap_M),
     (''Section N.htm'', Cap_N), (''Section N (PAGE 2).htm'', Cap_N), (''Section P.htm'', Cap_P),
     (''Section R.htm'', Cap_R), (''Section T.htm'', Cap_T), (''Section U.htm'', Cap_U),
     (''Section V.htm'', Cap_V)]"

definition rq_main :: "upload_dir \<Rightarrow> question section_result list" where
  "rq_main dir =
     extract_main (extract_questions_from_section rq_questions dir) dir rq_sections_to_extract"

definition fd_main :: "upload_dir \<Rightarrow> scored_question section_result list" where
  "fd_main dir =
     extract_main (extract_questions_from_section fd_questions dir) dir fd_sections_to_extract"

text \<open>
  For the statements about the batch runs: the documents that were extracted, in the
  order of processing, each with the section identifier of its entry; and the questions
  of the extracted documents of one identifier, in that order.
\<close>

definition extracted :: "(string \<Rightarrow> capital \<Rightarrow> 'q section_result option) \<Rightarrow> upload_dir
    \<Rightarrow> (string \<times> capital) list \<Rightarrow> (string \<times> 'q section_result) list" where
  "extracted extract dir sections_to_extract =
     concat (map (\<lambda>(filename, section_id).
        case dir filename of
          None \<Rightarrow> []
        | Some f \<Rightarrow> (case extract filename section_id of
                       Some section_data \<Rightarrow> [(capital_text section_id, section_data)]
                     | None \<Rightarrow> [])) sections_to_extract)"

definition questions_of :: "(string \<times> 'q section_result) list \<Rightarrow> string \<Rightarrow> 'q list" where
  "questions_of outs k = concat (map (\<lambda>p. questions (snd p)) (filter (\<lambda>p. fst p = k) outs))"

text \<open>
  For the statements about \<^verbatim>\<open>parse_html_file\<close>: a title parses when one of the three
  title patterns is found in it, and a file of the upload directory is well formed when
  it can be read, has an \<^verbatim>\<open>h1\<close> element and its title parses. Then a batch of five
  documents, of which the third has a title that does not parse.
\<close>

definition title_parses :: "string \<Rightarrow> bool" where
  "title_parses title_text =
     (\<not> (re_search title_pattern1 title_text = None
         \<and> re_search title_pattern2 title_text = None
         \<and> re_search title_pattern3 title_text = None))"

definition well_formed :: "upload_dir \<Rightarrow> string \<Rightarrow> bool" where
  "well_formed dir file_name =
    (case dir file_name of
       Some (Content d) \<Rightarrow> (case h1_text d of Some title_text \<Rightarrow> title_parses title_text | None \<Rightarrow> False)
     | Some (Unreadable e) \<Rightarrow> False
     | None \<Rightarrow> False)"

definition five_documents :: upload_dir where
  "five_documents =
    [''Section A.htm'' \<mapsto> Content \<lparr>h1_text = Some ''SIG Lite 2024 - Section A: Risk - (High)'',
        text_nl = ''1. A.1 Is there a plan?'', text_plain = ''1. A.1 Is there a plan?''\<rparr>,
     ''Section B.htm'' \<mapsto> Content \<lparr>h1_text = Some ''Section B - Policy - (Low)'',
        text_nl = ''B.1 x'', text_plain = ''B.1 x''\<rparr>,
     ''Section C.htm'' \<mapsto> Content \<lparr>h1_text = Some ''Appendix'',
        text_nl = ''C.1 x'', text_plain = ''C.1 x''\<rparr>,
     ''Section D.htm'' \<mapsto> Content \<lparr>h1_text = Some ''Section D: Assets - (High)'',
        text_nl = [], text_plain = []\<rparr>,
     ''Section E.htm'' \<mapsto> Content \<lparr>h1_text = Some ''Section E Training'',
        text_nl = [], text_plain = []\<rparr>]"

definition five_files :: "string list" where
  "five_files = take 5 SECTION_FILES"

text \<open>
  Two documents whose titles name the same section, for \<^verbatim>\<open>parseFordSurveyImproved.py\<close>;
  and a section in two pages, with another section, for \<^verbatim>\<open>extractFord2024Survey.py\<close>.
\<close>

definition two_documents_V :: upload_dir where
  "two_documents_V =
    [''Section T.htm'' \<mapsto> Content \<lparr>h1_text = Some ''Section V: Vendors - (High)'',
        text_nl = ''V.1 Is there a list of vendors?'',
        text_plain = ''V.1 Is there a list of vendors?''\<rparr>,
     ''Section V.htm'' \<mapsto> Content \<lparr>h1_text = Some ''Section V: Vendors - (High)'',
        text_nl = ''V.2 Is the list reviewed?'', text_plain = ''V.2 Is the list reviewed?''\<rparr>]"

definition two_pages_N :: upload_dir where
  "two_pages_N =
    [''Section A.htm'' \<mapsto> Content \<lparr>h1_text = Some ''Section A: Risk - (High)'',
        text_nl = ''1. A.1 Is there a plan?'', text_plain = ''1. A.1 Is there a plan?''\<rparr>,
     ''Section N.htm'' \<mapsto> Content \<lparr>h1_text = Some ''Section N: Network - (High)'',
        text_nl = ''1. N.1 Is there a firewall?'', text_plain = ''1. N.1 Is there a firewall?''\<rparr>,
     ''Section N (PAGE 2).htm'' \<mapsto> Content \<lparr>h1_text = Some ''Section N: Network - (High)'',
        text_nl = ''2. N.2 Is it reviewed?'', text_plain = ''2. N.2 Is it reviewed?''\<rparr>]"

text \<open>Two identical option lines after the options marker.\<close>

definition duplicate_lines :: "string list" where
  "duplicate_lines =
    [''1. A.1 Security program'',
     ''Is there a security program?'',
     ''Please select one of the following options'',
     ''Yes, we have a program'',
     ''Yes, we have a program'']"


text \<open>
  Two questions three lines apart; the first has no question text and no end marker.
\<close>

definition boundary_lines :: "string list" where
  "boundary_lines = [''A.1'', ''Help Text'', ''More info'', ''A.2'', ''Why is it so?'']"

text \<open>
  Question \<^verbatim>\<open>P.7\<close> with a line of scores two lines below its start line, and without.
\<close>

definition scoring_lines :: "string list" where
  "scoring_lines = [''P.7'', ''Is there a recovery plan?'', ''Likelihood: 3, Overall impact: 4'']"

definition no_scoring_lines :: "string list" where
  "no_scoring_lines = [''P.7'', ''Is there a recovery plan?'']"

text \<open>
  Lines for the end of the question text: a line with a question mark and the help text
  marker; a line with the options marker and an option behind it; and the same for
  \<^verbatim>\<open>parseFordSurveyImproved.py\<close>, with the options marker at the end of a line of question
  text.
\<close>

definition help_lines :: "string list" where
  "help_lines = [''A.1'', ''Is there a program'', ''in place? Help Text It is so'']"

definition marker_lines :: "string list" where
  "marker_lines =
    [''A.1'', ''Is there a program'',
     ''in place Please select one of the following options Yes, we have a program'',
     ''Comments'']"

definition imp_marker_lines :: "string list" where
  "imp_marker_lines =
    [''1. A.1 Program'', ''Is there a program'',
     ''in place Please select one of the following options'', ''Yes, we have a program'']"

section \<open>The end-to-end scenario of the specification\<close>

text \<open>The seven lines of the scenario, for the section identifier \<^verbatim>\<open>A\<close>.\<close>

definition scenario_lines :: "string list" where
  "scenario_lines =
    [''1. A.1 Does the organization have policy?'',
     ''Please select one of the following options'',
     ''Yes, we have a documented policy'',
     ''No, we do not'',
     ''Not applicable'',
     ''Answered by: Jane Doe'',
     ''Date: 07/12/2024'']"

text \<open>
  The sibling scan of \<^verbatim>\<open>extractFord2024Survey.py\<close> reads the question text off the start
  line.
\<close>

lemma fd_scenario:
  "map questionText (fd_questions Cap_A scenario_lines) = [''Does the organization have policy?'']"
  by code_simp

text \<open>
  The scan of \<^verbatim>\<open>parseFordSurvey.py\<close> opens no record on the lines of the scenario: its
  pattern wants the identifier of the question alone on its line.
\<close>

lemma pfs_scenario: "pfs_scan scenario_lines = []"
  by code_simp

text \<open>
  C1: on the scenario lines with section identifier \<^verbatim>\<open>A\<close> the specification asks for
  exactly one record with questionId \<^verbatim>\<open>A.1\<close>, questionText
  \<^verbatim>\<open>Does the organization have policy?\<close>, the three options, answeredBy
  \<^verbatim>\<open>Jane Doe\<close> and answeredDate \<^verbatim>\<open>07/12/2024\<close>. The scan of
  \<^verbatim>\<open>parseFordSurveyImproved.py\<close> gives another record. Its pattern captures the text of
  the start line in the second group, and nothing reads that group: the look-ahead starts
  on the next line, and the fallback, whose comment says that the text is taken from the
  initial line, takes the line after it, here the options marker. The lines
  \<^verbatim>\<open>Answered by: Jane Doe\<close> and \<^verbatim>\<open>Date: 07/12/2024\<close> come while options are being
  collected; the test for the end of the options compares the whole line with
  \<^verbatim>\<open>Answered by:\<close>, so both are consumed there and never reach the branches that read
  the name and the date.
\<close>

theorem C1_scenario_output:
  "re_match (question_pattern ''A'') (scenario_lines ! 0)
     = Some [(2, ''Does the organization have policy?''), (1, ''1'')]
   \<and> imp_questions ''A'' scenario_lines =
    [\<lparr>questionId = ''A.1'',
      questionText = ''Please select one of the following options'',
      helpText = None, answerType = ''single-choice'',
      options = [''Yes, we have a documented policy'', ''No, we do not'', ''Not applicable''],
      givenAnswer = \<lparr>selectedOption = None, comments = None, answeredBy = None,
                      answeredDate = None\<rparr>\<rparr>]"
  by code_simp

section \<open>Termination of the scans\<close>

text \<open>
  A loop that is the repetition of a step, with a cursor that every step moves forward,
  leaves after at most as many steps as the cursor has room.
\<close>

lemma loop_reaches:
  fixes step :: "nat \<times> 'a \<Rightarrow> nat \<times> 'a" and loop :: "nat \<times> 'a \<Rightarrow> 'a"
  assumes eq: "\<And>st. loop st = (if fst st < N then loop (step st) else snd st)"
    and adv: "\<And>st. fst st < fst (step st)"
  shows "\<exists>n\<le>N - fst st. N \<le> fst ((step ^^ n) st) \<and> loop st = snd ((step ^^ n) st)"
proof (induction "N - fst st" arbitrary: st rule: less_induct)
  case less
  show ?case
  proof (cases "fst st < N")
    case False
    then have "N \<le> fst ((step ^^ 0) st) \<and> loop st = snd ((step ^^ 0) st)"
      using eq[of st] by simp
    then show ?thesis by blast
  next
    case True
    have lt: "N - fst (step st) < N - fst st"
      using True adv[of st] by arith
    from less[OF lt] obtain n where n: "n \<le> N - fst (step st)"
      "N \<le> fst ((step ^^ n) (step st))" "loop (step st) = snd ((step ^^ n) (step st))"
      by blast
    have "Suc n \<le> N - fst st"
      using n(1) True adv[of st] by arith
    moreover have "N \<le> fst ((step ^^ Suc n) st)"
      using n(2) by (simp add: funpow_swap1)
    moreover have "loop st = snd ((step ^^ Suc n) st)"
      using n(3) True eq[of st] by (simp add: funpow_swap1)
    ultimately show ?thesis by blast
  qed
qed

lemma imp_step_fst: "fst st < fst (imp_step section_id all_lines st)"
  using imp_step_advances[of section_id all_lines "fst st" "snd st"]
  by (cases "imp_step section_id all_lines st") auto

lemma rq_step_fst: "fst st < fst (rq_step section_id lines st)"
  using rq_step_advances[of section_id lines "fst st" "snd st"]
  by (cases "rq_step section_id lines st") auto

lemma fd_step_fst: "fst st < fst (fd_step section_id lines st)"
  using fd_step_advances[of section_id lines "fst st" "snd st"]
  by (cases "fd_step section_id lines st") auto

text \<open>
  C10: for every list of lines the scan of each of the three scripts terminates. Its outer
  loop is the repetition of the step function; within at most \<open>length lines\<close> rounds the
  cursor is at or past the end, and the value of the scan is the list of questions at
  that round. Every round moves the cursor forward: by one, or to the position where the
  look-ahead stopped, which is at least one past the start line; and every round of a
  look-ahead that goes on moves its index \<open>j\<close> forward. (\<open>section_id\<close> is the identifier that
  \<^verbatim>\<open>parse_html_file\<close> reads off the title, \<open>section_letter\<close> the one that the two other
  scripts are called with.)
\<close>

theorem C10_scan_terminates:
  "(\<exists>n\<le>length lines. length lines \<le> fst ((imp_step section_id lines ^^ n) (0, []))
        \<and> imp_questions section_id lines = snd ((imp_step section_id lines ^^ n) (0, [])))
   \<and> (\<exists>n\<le>length lines. length lines \<le> fst ((rq_step section_letter lines ^^ n) (0, []))
        \<and> rq_questions section_letter lines = snd ((rq_step section_letter lines ^^ n) (0, [])))
   \<and> (\<exists>n\<le>length lines. length lines \<le> fst ((fd_step section_letter lines ^^ n) (0, []))
        \<and> fd_questions section_letter lines = snd ((fd_step section_letter lines ^^ n) (0, [])))
   \<and> i < fst (imp_step section_id lines (i, qs))
   \<and> i < fst (rq_step section_letter lines (i, qs))
   \<and> i < fst (fd_step section_letter lines (i, sqs))
   \<and> i + 1 \<le> fst (imp_lookahead section_id lines i (i + 1) iv)
   \<and> i + 1 \<le> fst (rq_lookahead section_letter lines i (i + 1) rv)
   \<and> i + 1 \<le> fst (fd_lookahead section_letter lines i (i + 1) fv)
   \<and> (imp_body section_id lines j iv = Continue j' iv' \<longrightarrow> j < j')
   \<and> (rq_body section_letter lines i j rv = Continue j' rv' \<longrightarrow> j < j')
   \<and> (fd_body section_letter lines i j fv = Continue j' fv' \<longrightarrow> j < j')"
proof -
  have a: "\<exists>n\<le>length lines. length lines \<le> fst ((imp_step section_id lines ^^ n) (0, []))
        \<and> imp_questions section_id lines = snd ((imp_step section_id lines ^^ n) (0, []))"
    using loop_reaches[of "imp_loop section_id lines" "length lines" "imp_step section_id lines" "(0, [])",
        OF imp_loop.simps imp_step_fst]
    by (simp add: imp_questions_def)
  have b: "\<exists>n\<le>length lines. length lines \<le> fst ((rq_step section_letter lines ^^ n) (0, []))
        \<and> rq_questions section_letter lines = snd ((rq_step section_letter lines ^^ n) (0, []))"
    using loop_reaches[of "rq_loop section_letter lines" "length lines" "rq_step section_letter lines" "(0, [])",
        OF rq_loop.simps rq_step_fst]
    by (simp add: rq_questions_def)
  have c: "\<exists>n\<le>length lines. length lines \<le> fst ((fd_step section_letter lines ^^ n) (0, []))
        \<and> fd_questions section_letter lines = snd ((fd_step section_letter lines ^^ n) (0, []))"
    using loop_reaches[of "fd_loop section_letter lines" "length lines" "fd_step section_letter lines" "(0, [])",
        OF fd_loop.simps fd_step_fst]
    by (simp add: fd_questions_def)
  have d: "i < fst (imp_step section_id lines (i, qs))"
    "i < fst (rq_step section_letter lines (i, qs))"
    "i < fst (fd_step section_letter lines (i, sqs))"
    using imp_step_fst[of "(i, qs)"] rq_step_fst[of "(i, qs)"] fd_step_fst[of "(i, sqs)"]
    by simp_all
  have e: "i + 1 \<le> fst (imp_lookahead section_id lines i (i + 1) iv)"
    "i + 1 \<le> fst (rq_lookahead section_letter lines i (i + 1) rv)"
    "i + 1 \<le> fst (fd_lookahead section_letter lines i (i + 1) fv)"
    by (rule imp_lookahead_ge rq_lookahead_ge fd_lookahead_ge)+
  have f: "imp_body section_id lines j iv = Continue j' iv' \<longrightarrow> j < j'"
    "rq_body section_letter lines i j rv = Continue j' rv' \<longrightarrow> j < j'"
    "fd_body section_letter lines i j fv = Continue j' fv' \<longrightarrow> j < j'"
    using imp_body_advances rq_body_advances fd_body_advances by blast+
  from a b c d e f show ?thesis by blast
qed

lemma imp_body_scenario: "imp_body ''A'' scenario_lines 1 imp_init
    = Continue 2 (imp_init\<lparr>imp_collecting_question := False, imp_collecting_options := True\<rparr>)"
  by code_simp
lemma rq_body_scenario: "rq_body Cap_A scenario_lines 0 1 rq_init
    = Continue 2 (rq_init\<lparr>rq_collecting_question := False, rq_collecting_options := True\<rparr>)"
  by code_simp
lemma fd_body_scenario: "fd_body Cap_A scenario_lines 0 1 fd_init
    = Continue 2 (fd_init\<lparr>fd_collecting_question := False, fd_collecting_options := True\<rparr>)"
  by code_simp

theorem C10_scan_terminates_witness:
  "imp_body ''A'' scenario_lines 1 imp_init
     = Continue 2 (imp_init\<lparr>imp_collecting_question := False, imp_collecting_options := True\<rparr>)
   \<and> rq_body Cap_A scenario_lines 0 1 rq_init
     = Continue 2 (rq_init\<lparr>rq_collecting_question := False, rq_collecting_options := True\<rparr>)
   \<and> fd_body Cap_A scenario_lines 0 1 fd_init
     = Continue 2 (fd_init\<lparr>fd_collecting_question := False, fd_collecting_options := True\<rparr>)
   \<and> (1::nat) < 2
   \<and> 0 < fst (imp_step ''A'' scenario_lines (0, []))
   \<and> (\<exists>n\<le>length scenario_lines.
         length scenario_lines \<le> fst ((imp_step ''A'' scenario_lines ^^ n) (0, []))
         \<and> imp_questions ''A'' scenario_lines = snd ((imp_step ''A'' scenario_lines ^^ n) (0, [])))"
  using C10_scan_terminates[where section_id = "''A''" and section_letter = Cap_A
      and lines = scenario_lines and i = 0
      and j = 1 and j' = 2 and qs = "[]" and iv = imp_init and rv = rq_init and fv = fd_init
      and iv' = "imp_init\<lparr>imp_collecting_question := False, imp_collecting_options := True\<rparr>"
      and rv' = "rq_init\<lparr>rq_collecting_question := False, rq_collecting_options := True\<rparr>"
      and fv' = "fd_init\<lparr>fd_collecting_question := False, fd_collecting_options := True\<rparr>"]
    imp_body_scenario rq_body_scenario fd_body_scenario
  by simp

section \<open>A document that fails does not stop the batch\<close>

lemma parse_iff_well_formed: "(imp_parse_html_file dir f \<noteq> None) = well_formed dir f"
  by (auto simp: imp_parse_html_file_def imp_try_def read_html_def imp_title_def title_match_def
      well_formed_def title_parses_def split: option.splits source_file.splits sum.splits)

lemma parse_missing: "dir f = None \<Longrightarrow> imp_parse_html_file dir f = None"
  by (simp add: imp_parse_html_file_def imp_try_def read_html_def)

lemma imp_batch_foldl:
  "foldl (\<lambda>b file_name. imp_file dir b file_name (imp_parse_html_file dir)) b files
   = \<lparr>sections = sections b @ List.map_filter (imp_parse_html_file dir) files,
      failed = failed b @ filter (\<lambda>f. dir f \<noteq> None \<and> imp_parse_html_file dir f = None) files,
      not_found = not_found b @ filter (\<lambda>f. dir f = None) files\<rparr>"
proof (induction files arbitrary: b)
  case Nil
  show ?case by (simp add: List.map_filter_simps)
next
  case (Cons f files)
  let ?F = "\<lambda>b file_name. imp_file dir b file_name (imp_parse_html_file dir)"
  have "foldl ?F b (f # files) = foldl ?F (imp_file dir b f (imp_parse_html_file dir)) files"
    by simp
  also have "\<dots> = \<lparr>sections = sections (imp_file dir b f (imp_parse_html_file dir))
                        @ List.map_filter (imp_parse_html_file dir) files,
      failed = failed (imp_file dir b f (imp_parse_html_file dir))
                 @ filter (\<lambda>f. dir f \<noteq> None \<and> imp_parse_html_file dir f = None) files,
      not_found = not_found (imp_file dir b f (imp_parse_html_file dir))
                 @ filter (\<lambda>f. dir f = None) files\<rparr>"
    by (rule Cons.IH)
  also have "\<dots> = \<lparr>sections = sections b @ List.map_filter (imp_parse_html_file dir) (f # files),
      failed = failed b @ filter (\<lambda>f. dir f \<noteq> None \<and> imp_parse_html_file dir f = None) (f # files),
      not_found = not_found b @ filter (\<lambda>f. dir f = None) (f # files)\<rparr>"
  proof (cases "dir f")
    case None
    then show ?thesis
      by (simp add: imp_file_def List.map_filter_simps parse_missing)
  next
    case (Some x)
    then show ?thesis
      by (cases "imp_parse_html_file dir f") (simp_all add: imp_file_def List.map_filter_simps)
  qed
  finally show ?case .
qed

lemma length_map_filter: "length (List.map_filter g xs) = length (filter (\<lambda>x. g x \<noteq> None) xs)"
  by (induction xs) (auto simp: List.map_filter_simps split: option.splits)

text \<open>
  C2: \<^verbatim>\<open>parse_html_file\<close> returns a section exactly for the well-formed files and
  \<^verbatim>\<open>None\<close> for every other one, whatever was raised inside; the batch loop of \<^verbatim>\<open>main\<close>
  goes through all the files: its sections are the results of the files that parse, in
  order, as many as there are well-formed files; every file that is there and is not well
  formed is recorded as failed, and every missing file as not found. So a batch of one
  failing and \<open>N\<close> well-formed documents gives \<open>N\<close> sections and one recorded failure.
\<close>

theorem C2_batch_isolation:
  "(imp_parse_html_file dir f \<noteq> None) = well_formed dir f
   \<and> sections (imp_batch dir files) = List.map_filter (imp_parse_html_file dir) files
   \<and> length (sections (imp_batch dir files)) = length (filter (well_formed dir) files)
   \<and> failed (imp_batch dir files) = filter (\<lambda>f. dir f \<noteq> None \<and> \<not> well_formed dir f) files
   \<and> not_found (imp_batch dir files) = filter (\<lambda>f. dir f = None) files"
proof -
  have s: "sections (imp_batch dir files) = List.map_filter (imp_parse_html_file dir) files"
    by (simp add: imp_batch_def imp_batch_foldl)
  have l: "length (sections (imp_batch dir files)) = length (filter (well_formed dir) files)"
    unfolding s length_map_filter by (simp only: parse_iff_well_formed)
  have p: "(imp_parse_html_file dir g = None) = (\<not> well_formed dir g)" for g
    using parse_iff_well_formed[of dir g] by blast
  have f: "failed (imp_batch dir files) = filter (\<lambda>f. dir f \<noteq> None \<and> \<not> well_formed dir f) files"
    by (simp add: imp_batch_def imp_batch_foldl p)
  have n: "not_found (imp_batch dir files) = filter (\<lambda>f. dir f = None) files"
    by (simp add: imp_batch_def imp_batch_foldl)
  from parse_iff_well_formed[of dir f] s l f n show ?thesis by blast
qed

lemma five_well_formed:
  "filter (well_formed five_documents) five_files
     = [''Section A.htm'', ''Section B.htm'', ''Section D.htm'', ''Section E.htm'']"
  by code_simp

lemma five_present: "filter (\<lambda>f. five_documents f = None) five_files = []"
  by code_simp

lemma five_failed:
  "filter (\<lambda>f. five_documents f \<noteq> None \<and> \<not> well_formed five_documents f) five_files
     = [''Section C.htm'']"
  by code_simp

theorem C2_batch_isolation_witness:
  "length (filter (well_formed five_documents) five_files) = 4
   \<and> length (sections (imp_batch five_documents five_files)) = 4
   \<and> failed (imp_batch five_documents five_files) = [''Section C.htm'']
   \<and> not_found (imp_batch five_documents five_files) = []"
proof -
  note c2 = C2_batch_isolation[of five_documents "''Section C.htm''" five_files]
  from c2 have "length (sections (imp_batch five_documents five_files))
      = length (filter (well_formed five_documents) five_files)"
    by blast
  moreover from c2 have "failed (imp_batch five_documents five_files)
      = filter (\<lambda>f. five_documents f \<noteq> None \<and> \<not> well_formed five_documents f) five_files"
    by blast
  moreover from c2 have "not_found (imp_batch five_documents five_files)
      = filter (\<lambda>f. five_documents f = None) five_files"
    by blast
  ultimately show ?thesis
    by (simp only: five_well_formed five_present five_failed) simp
qed

section \<open>Merging the pages of a section and sorting the sections\<close>

lemma merge_section_keys:
  "map fst (merge_section al k d) = (if k \<in> set (map fst al) then map fst al else map fst al @ [k])"
  by (induction al k d rule: merge_section.induct) auto

lemma merge_section_entry:
  assumes "(k', e) \<in> set (merge_section al k d)" and "distinct (map fst al)"
  shows "(k' \<noteq> k \<and> (k', e) \<in> set al)
       \<or> (k' = k \<and> (\<exists>e0. (k, e0) \<in> set al \<and> e = e0\<lparr>questions := questions e0 @ questions d\<rparr>))
       \<or> (k' = k \<and> k \<notin> set (map fst al) \<and> e = d)"
  using assms
proof (induction al k d rule: merge_section.induct)
  case (1 section_id section_data)
  then show ?case by simp
next
  case (2 k0 e0 rest section_id section_data)
  then show ?case by (auto split: if_splits simp: rev_image_eqI)
qed

definition merged :: "(string \<times> 'q section_result) list \<Rightarrow> (string \<times> 'q section_result) list \<Rightarrow> bool" where
  "merged al outs \<longleftrightarrow>
     distinct (map fst al) \<and> set (map fst al) = set (map fst outs)
     \<and> (\<forall>(k, e)\<in>set al. sectionId e = k \<and> questions e = questions_of outs k)"

lemma questions_of_snoc:
  "questions_of (outs @ [(k, d)]) k' = questions_of outs k' @ (if k' = k then questions d else [])"
  by (simp add: questions_of_def)

lemma questions_of_absent: "k \<notin> set (map fst outs) \<Longrightarrow> questions_of outs k = []"
  by (induction outs) (auto simp: questions_of_def)

lemma merged_step:
  assumes m: "merged al outs" and d: "sectionId d = k"
  shows "merged (merge_section al k d) (outs @ [(k, d)])"
proof -
  have dist: "distinct (map fst al)" and keys: "set (map fst al) = set (map fst outs)"
    and ent: "\<And>k' e. (k', e) \<in> set al \<Longrightarrow> sectionId e = k' \<and> questions e = questions_of outs k'"
    using m by (auto simp: merged_def)
  have 1: "distinct (map fst (merge_section al k d))"
    using dist by (simp add: merge_section_keys)
  have 2: "set (map fst (merge_section al k d)) = set (map fst (outs @ [(k, d)]))"
    using keys by (auto simp: merge_section_keys)
  have 3: "sectionId e = k' \<and> questions e = questions_of (outs @ [(k, d)]) k'"
    if "(k', e) \<in> set (merge_section al k d)" for k' e
  proof -
    from merge_section_entry[OF that dist]
    consider (old) "k' \<noteq> k" "(k', e) \<in> set al"
      | (upd) e0 where "k' = k" "(k, e0) \<in> set al" "e = e0\<lparr>questions := questions e0 @ questions d\<rparr>"
      | (new) "k' = k" "k \<notin> set (map fst al)" "e = d"
      by blast
    then show ?thesis
    proof cases
      case old
      then show ?thesis using ent[of k' e] by (simp add: questions_of_snoc)
    next
      case upd
      then show ?thesis using ent[of k e0] by (simp add: questions_of_snoc)
    next
      case new
      then show ?thesis using d keys questions_of_absent[of k outs]
        by (simp add: questions_of_snoc)
    qed
  qed
  from 1 2 3 show ?thesis
    unfolding merged_def by blast
qed

lemma extract_sectionId:
  "extract_questions_from_section scan dir filename section_id = Some d
    \<Longrightarrow> sectionId d = capital_text section_id"
  by (auto simp: extract_questions_from_section_def extract_try_def Let_def
      split: sum.splits prod.splits option.splits)

lemma merged_foldl:
  "merged (foldl (extract_file (extract_questions_from_section scan dir) dir) [] entries)
          (extracted (extract_questions_from_section scan dir) dir entries)"
proof (induction entries rule: rev_induct)
  case Nil
  show ?case by (simp add: merged_def extracted_def)
next
  case (snoc entry entries)
  obtain filename section_id where e: "entry = (filename, section_id)" by (cases entry)
  show ?case
  proof (cases "dir filename")
    case None
    with snoc e show ?thesis by (simp add: extract_file_def extracted_def)
  next
    case (Some f)
    show ?thesis
    proof (cases "extract_questions_from_section scan dir filename section_id")
      case None
      with snoc e Some show ?thesis by (simp add: extract_file_def extracted_def)
    next
      case (Some d)
      from merged_step[OF snoc extract_sectionId[OF Some]] e Some \<open>dir filename = Some f\<close>
      show ?thesis by (simp add: extract_file_def extracted_def)
    qed
  qed
qed

lemma distinct_map_sort_key: "distinct (map f (sort_key f xs)) = distinct (map f xs)"
  by (simp add: distinct_map)

lemma set_map_sort_key: "set (map f (sort_key f xs)) = set (map f xs)"
  by simp

lemma sorted_merged:
  assumes "merged al outs"
  shows "map (\<lambda>e. (sectionId e, questions e)) (sort_key sectionId (map snd al))
       = map (\<lambda>k. (k, questions_of outs k)) (sort (remdups (map fst outs)))"
proof -
  let ?r = "sort_key sectionId (map snd al)"
  have dist: "distinct (map fst al)" and keys: "set (map fst al) = set (map fst outs)"
    and ent: "\<And>k e. (k, e) \<in> set al \<Longrightarrow> sectionId e = k \<and> questions e = questions_of outs k"
    using assms by (auto simp: merged_def)
  have ids: "map sectionId (map snd al) = map fst al"
    using ent by (induction al) auto
  have "distinct (map sectionId (map snd al))"
    unfolding ids by (rule dist)
  then have "distinct (map sectionId ?r)"
    by (simp only: distinct_map_sort_key)
  moreover have "sorted (map sectionId ?r)" by simp
  moreover have "set (map sectionId ?r) = set (sort (remdups (map fst outs)))"
    using keys by (simp only: set_map_sort_key ids set_sort set_remdups)
  moreover have "sorted (sort (remdups (map fst outs)))" "distinct (sort (remdups (map fst outs)))"
    by simp_all
  ultimately have eq: "map sectionId ?r = sort (remdups (map fst outs))"
    by (metis sorted_distinct_set_unique)
  have "questions e = questions_of outs (sectionId e)" if "e \<in> set ?r" for e
  proof -
    from that obtain k where "(k, e) \<in> set al" by auto
    with ent[of k e] show ?thesis by simp
  qed
  then have "map (\<lambda>e. (sectionId e, questions e)) ?r
      = map (\<lambda>e. (sectionId e, questions_of outs (sectionId e))) ?r"
    by simp
  also have "\<dots> = map (\<lambda>k. (k, questions_of outs k)) (map sectionId ?r)"
    by (simp add: comp_def)
  finally show ?thesis using eq by simp
qed

text \<open>
  Two pages of section \<^verbatim>\<open>N\<close> in \<^verbatim>\<open>extractFord2024Survey.py\<close>: one section, with the
  questions of the first page before those of the second; with the list of files read
  backwards the sections come in the same order and the questions of the second page
  first.
\<close>

lemma fd_pages_merged:
  "map (\<lambda>e. (sectionId e, map questionId (questions e))) (fd_main two_pages_N)
     = [(''A'', [''A.1'']), (''N'', [''N.1'', ''N.2''])]"
  by code_simp

lemma fd_pages_merged_reversed:
  "map (\<lambda>e. (sectionId e, map questionId (questions e)))
     (extract_main (extract_questions_from_section fd_questions two_pages_N) two_pages_N
        (rev fd_sections_to_extract))
     = [(''A'', [''A.1'']), (''N'', [''N.2'', ''N.1''])]"
  by code_simp

text \<open>
  C9, as stated, says that documents of one section identifier end in a single section
  result. The \<^verbatim>\<open>main\<close> of \<^verbatim>\<open>parseFordSurveyImproved.py\<close>, whose sort is one of the places
  the statement is drawn from, appends one section for every document that parses and
  sorts the list; it has no step that merges. Two documents whose titles both name
  section \<^verbatim>\<open>V\<close> give two sections \<^verbatim>\<open>V\<close>.
\<close>

theorem C9_merge_and_sort_counterexample:
  "map_option (map (\<lambda>e. (sectionId e, map questionId (questions e))))
     (fst (imp_main (Some two_documents_V)))
   = Some [(''V'', [''V.1'']), (''V'', [''V.2''])]"
  by code_simp

text \<open>
  C9, amended: in the \<^verbatim>\<open>main\<close> of \<^verbatim>\<open>extractRealQuestions.py\<close> and of
  \<^verbatim>\<open>extractFord2024Survey.py\<close> (\<open>extract_main\<close> with the scan and the list of files of
  either script) the result has one section for every identifier that has an extracted
  document; its questions are the questions of the extracted documents of that
  identifier, concatenated in the order in which the documents were processed; and the
  sections come in ascending order of their identifiers, whatever the order of
  processing was. The \<^verbatim>\<open>main\<close> of \<^verbatim>\<open>parseFordSurveyImproved.py\<close> sorts as well and does
  not merge: its result is the list of the sections of the documents that parse, one for
  each well-formed document, in ascending order of the identifiers.
\<close>

theorem C9_merge_and_sort:
  "map (\<lambda>e. (sectionId e, questions e))
       (extract_main (extract_questions_from_section scan dir) dir entries)
     = map (\<lambda>k. (k, questions_of (extracted (extract_questions_from_section scan dir) dir entries) k))
           (sort (remdups (map fst (extracted (extract_questions_from_section scan dir) dir entries))))
   \<and> sorted (map sectionId (extract_main (extract_questions_from_section scan dir) dir entries))
   \<and> distinct (map sectionId (extract_main (extract_questions_from_section scan dir) dir entries))
   \<and> fst (imp_main_files (Some dir) files)
       = (if List.map_filter (imp_parse_html_file dir) files = [] then None
          else Some (sort_key sectionId (List.map_filter (imp_parse_html_file dir) files)))
   \<and> sorted (map sectionId
        (case fst (imp_main_files (Some dir) files) of Some r \<Rightarrow> r | None \<Rightarrow> []))
   \<and> length (case fst (imp_main_files (Some dir) files) of Some r \<Rightarrow> r | None \<Rightarrow> [])
       = length (filter (well_formed dir) files)"
proof -
  have m: "merged (foldl (extract_file (extract_questions_from_section scan dir) dir) [] entries)
          (extracted (extract_questions_from_section scan dir) dir entries)"
    by (rule merged_foldl)
  have 1: "map (\<lambda>e. (sectionId e, questions e))
       (extract_main (extract_questions_from_section scan dir) dir entries)
     = map (\<lambda>k. (k, questions_of (extracted (extract_questions_from_section scan dir) dir entries) k))
           (sort (remdups (map fst (extracted (extract_questions_from_section scan dir) dir entries))))"
    unfolding extract_main_def by (rule sorted_merged[OF m])
  have 2: "sorted (map sectionId (extract_main (extract_questions_from_section scan dir) dir entries))"
    unfolding extract_main_def by simp
  have "map sectionId (extract_main (extract_questions_from_section scan dir) dir entries)
      = sort (remdups (map fst (extracted (extract_questions_from_section scan dir) dir entries)))"
    using arg_cong[OF 1, of "map fst"] by (simp add: comp_def)
  then have 3: "distinct (map sectionId (extract_main (extract_questions_from_section scan dir) dir entries))"
    by simp
  have s: "sections (imp_batch dir files) = List.map_filter (imp_parse_html_file dir) files"
    by (simp add: imp_batch_def imp_batch_foldl)
  have 4: "fst (imp_main_files (Some dir) files)
       = (if List.map_filter (imp_parse_html_file dir) files = [] then None
          else Some (sort_key sectionId (List.map_filter (imp_parse_html_file dir) files)))"
    by (simp add: imp_main_files_def Let_def s)
  have 5: "sorted (map sectionId
        (case fst (imp_main_files (Some dir) files) of Some r \<Rightarrow> r | None \<Rightarrow> []))"
    unfolding 4 by simp
  have l: "length (List.map_filter (imp_parse_html_file dir) files)
      = length (filter (well_formed dir) files)"
    unfolding length_map_filter by (simp only: parse_iff_well_formed)
  have 6: "length (case fst (imp_main_files (Some dir) files) of Some r \<Rightarrow> r | None \<Rightarrow> [])
       = length (filter (well_formed dir) files)"
    unfolding 4 using l by (cases "List.map_filter (imp_parse_html_file dir) files = []") simp_all
  from 1 2 3 4 5 6 show ?thesis by blast
qed

section \<open>Options that occur twice\<close>

text \<open>
  C5 says that the options of an emitted record are pairwise distinct, and that two
  identical option lines \<^verbatim>\<open>Yes, we have a program\<close> give the string once. The look-ahead
  of \<^verbatim>\<open>parseFordSurveyImproved.py\<close> appends every option line without looking at the
  options it has: on the lines below the record has the option twice.
\<close>

theorem C5_duplicate_options_kept:
  "map options (imp_questions ''A'' duplicate_lines)
     = [[''Yes, we have a program'', ''Yes, we have a program'']]"
  by code_simp

text \<open>
  \<^verbatim>\<open>extractRealQuestions.py\<close> tests \<^verbatim>\<open>opt not in options\<close> before it appends, and has
  the option once on the same lines.
\<close>

lemma rq_duplicate_options_dropped:
  "map options (rq_questions Cap_A duplicate_lines) = [[''Yes, we have a program'']]"
  by code_simp

section \<open>What the patterns match\<close>

text \<open>Facts about the matcher: sequences, literals, and a class repeated before a rest that always matches.\<close>

lemma Seqs_Nil: "Seqs [] = Eps"
  by (simp add: Seqs_def)

lemma Seqs_Cons: "Seqs (r # rs) = Seq r (Seqs rs)"
  by (simp add: Seqs_def)

lemma rmatch_Lit: "rmatch (Lit x) s c k = (case s of [] \<Rightarrow> None | y # ys \<Rightarrow> if y = x then k ys c else None)"
  by (simp add: Lit_def)

lemma rmatch_Str: "rmatch (Str p) s c k = (if prefix p s then k (drop (length p) s) c else None)"
proof (induction p arbitrary: s)
  case Nil
  show ?case by (simp add: Str_def)
next
  case (Cons x p)
  have "Str (x # p) = Seq (Lit x) (Str p)" by (simp add: Str_def)
  then show ?case
    using Cons by (cases s) (auto simp: rmatch_Lit)
qed

lemma star_g_total:
  assumes "\<And>s' c'. k s' c' \<noteq> None"
  shows "star_g f n s c k \<noteq> None"
  using assms by (cases n) (auto split: option.splits)

lemma rmatch_Plus_Cls_total:
  assumes "\<And>s' c'. k s' c' \<noteq> None"
  shows "(rmatch (Plus (Cls P)) s c k \<noteq> None) = (\<exists>x xs. s = x # xs \<and> P x)"
  using star_g_total[of k "rmatch (Cls P)"] assms
  by (cases s) (auto simp: Plus_def)

lemma re_search_iff: "(re_search r s \<noteq> None) = (\<exists>pre x. s = pre @ x \<and> re_match r x \<noteq> None)"
proof (induction s)
  case Nil
  show ?case by simp
next
  case (Cons a s)
  show ?case
  proof (cases "re_match r (a # s)")
    case None
    have "(\<exists>pre x. a # s = pre @ x \<and> re_match r x \<noteq> None)
        = (\<exists>pre x. s = pre @ x \<and> re_match r x \<noteq> None)"
    proof
      assume "\<exists>pre x. a # s = pre @ x \<and> re_match r x \<noteq> None"
      then obtain pre x where px: "a # s = pre @ x" "re_match r x \<noteq> None" by blast
      with None obtain pre' where "pre = a # pre'" by (cases pre) auto
      with px show "\<exists>pre x. s = pre @ x \<and> re_match r x \<noteq> None" by auto
    next
      assume "\<exists>pre x. s = pre @ x \<and> re_match r x \<noteq> None"
      then obtain pre x where "s = pre @ x" "re_match r x \<noteq> None" by blast
      then have "a # s = (a # pre) @ x \<and> re_match r x \<noteq> None" by simp
      then show "\<exists>pre x. a # s = pre @ x \<and> re_match r x \<noteq> None" by blast
    qed
    with None Cons show ?thesis by simp
  next
    case (Some m)
    then have "a # s = [] @ (a # s) \<and> re_match r (a # s) \<noteq> None" by simp
    then have "\<exists>pre x. a # s = pre @ x \<and> re_match r x \<noteq> None" by blast
    with Some show ?thesis by simp
  qed
qed

lemma rmatch_Grp_Plus_Cls:
  "(rmatch (Grp i (Plus (Cls P))) s c (\<lambda>s' c'. Some (s', c')) \<noteq> None) = (\<exists>x xs. s = x # xs \<and> P x)"
  using rmatch_Plus_Cls_total[of "\<lambda>s' c'. Some (s', (i, take (length s - length s') s) # c')" P s c]
  by simp

lemma fd_question_match_iff:
  "(re_match (fd_question_pattern section_id) x \<noteq> None)
     = (\<exists>c post. x = capital_text section_id @ ''.'' @ c # post \<and> qualifier_char c)"
proof -
  have "(re_match (fd_question_pattern section_id) x \<noteq> None)
      = (prefix (capital_text section_id) x \<and> (\<exists>c post. drop (length (capital_text section_id)) x = CHR ''.'' # c # post \<and> qualifier_char c))"
  proof (cases "prefix (capital_text section_id) x")
    case False
    then show ?thesis
      by (simp add: re_match_def re_match_rest_def fd_question_pattern_def Seqs_Cons rmatch_Str)
  next
    case True
    show ?thesis
    proof (cases "drop (length (capital_text section_id)) x")
      case Nil
      with True show ?thesis
        by (simp add: re_match_def re_match_rest_def fd_question_pattern_def Seqs_Cons rmatch_Str
            rmatch_Lit)
    next
      case (Cons d y)
      have "(rmatch (Grp 1 (Plus (Cls qualifier_char))) y [] (\<lambda>s' c'. Some (s', c')) \<noteq> None)
          = (\<exists>c post. y = c # post \<and> qualifier_char c)"
        by (rule rmatch_Grp_Plus_Cls)
      with True Cons show ?thesis
        by (simp add: re_match_def re_match_rest_def fd_question_pattern_def Seqs_Cons Seqs_Nil
            rmatch_Str rmatch_Lit del: rmatch.simps(7))
    qed
  qed
  also have "\<dots> = (\<exists>c post. x = capital_text section_id @ ''.'' @ c # post \<and> qualifier_char c)"
    by (auto simp: prefix_def)
  finally show ?thesis .
qed

section \<open>The line that starts a question\<close>

text \<open>
  C6, as stated, says that a line carrying \<^verbatim>\<open>S.Q\<close> is a question start of section \<open>S\<close>
  for every qualifier \<open>Q\<close> of digits, capitals and dots, and that a line whose identifier
  has another section letter never is. In \<^verbatim>\<open>extractFord2024Survey.py\<close> the line
  \<^verbatim>\<open>B.A.1 Is there a policy?\<close> is question \<^verbatim>\<open>B.A.1\<close> of section \<^verbatim>\<open>B\<close>, with the
  qualifier \<^verbatim>\<open>A.1\<close>, and is a question start of section \<^verbatim>\<open>A\<close> too, since the pattern
  is searched for anywhere in the line. In \<^verbatim>\<open>parseFordSurvey.py\<close> the pattern does not
  mention the section of the document at all, so \<^verbatim>\<open>B.1\<close> starts a question in any
  document, and a composite qualifier as in \<^verbatim>\<open>N.13.1F\<close> does not start one.
\<close>

theorem C6_question_start_counterexample:
  "re_search (fd_question_pattern Cap_B) ''B.A.1 Is there a policy?'' = Some [(1, ''A.1'')]
   \<and> re_search (fd_question_pattern Cap_A) ''B.A.1 Is there a policy?'' \<noteq> None
   \<and> re_match pfs_question_pattern ''B.1'' = Some [(2, ''1''), (1, ''B'')]
   \<and> re_match pfs_question_pattern ''N.13.1F'' = None"
  by code_simp

text \<open>
  C6, amended: in \<^verbatim>\<open>extractFord2024Survey.py\<close> a line is a question start of section
  \<open>S\<close>, a capital letter, exactly when it contains, anywhere, the letter \<open>S\<close>, a dot and one
  character that is a digit, a capital or a dot. So every line that carries \<^verbatim>\<open>S.Q\<close> with a qualifier
  \<open>Q\<close> of one or more such characters is a question start of \<open>S\<close>, plain numbers and
  composites like \<^verbatim>\<open>13.1F\<close> alike, and a line that nowhere contains \<^verbatim>\<open>S.\<close> followed by
  such a character never is; the match is tied to the letter \<open>S\<close>, not to its place.
\<close>

theorem C6_question_start:
  "(re_search (fd_question_pattern section_id) line \<noteq> None)
     = (\<exists>pre c post. line = pre @ capital_text section_id @ ''.'' @ c # post \<and> qualifier_char c)
   \<and> (q \<noteq> [] \<and> (\<forall>c\<in>set q. qualifier_char c)
        \<longrightarrow> re_search (fd_question_pattern section_id) (pre @ capital_text section_id @ ''.'' @ q @ post) \<noteq> None)"
proof -
  have 1: "(re_search (fd_question_pattern section_id) l \<noteq> None)
     = (\<exists>pre c post. l = pre @ capital_text section_id @ ''.'' @ c # post \<and> qualifier_char c)" for l
    unfolding re_search_iff fd_question_match_iff by blast
  have 2: "re_search (fd_question_pattern section_id) (pre @ capital_text section_id @ ''.'' @ q @ post) \<noteq> None"
    if "q \<noteq> []" "\<forall>c\<in>set q. qualifier_char c"
  proof -
    from that obtain c q' where "q = c # q'" "qualifier_char c" by (cases q) auto
    then have "pre @ capital_text section_id @ ''.'' @ q @ post = pre @ capital_text section_id @ ''.'' @ c # (q' @ post)
        \<and> qualifier_char c"
      by simp
    then show ?thesis unfolding 1 by blast
  qed
  from 1[of line] 2 show ?thesis by blast
qed

theorem C6_question_start_witness:
  "list_all qualifier_char ''13.1F''
   \<and> re_search (fd_question_pattern Cap_N) (''4. '' @ capital_text Cap_N @ ''.'' @ ''13.1F'' @ '' Is it so?'') \<noteq> None
   \<and> list_all qualifier_char ''3''
   \<and> re_search (fd_question_pattern Cap_N) ([] @ capital_text Cap_N @ ''.'' @ ''3'' @ []) \<noteq> None"
  using C6_question_start[of Cap_N "[]" "''13.1F''" "''4. ''" "'' Is it so?''"]
    C6_question_start[of Cap_N "[]" "''3''" "[]" "[]"]
  by (simp add: qualifier_char_def is_digit_def is_upper_def capital_text_def)

section \<open>A question without question text\<close>



lemma imp_placeholder:
  "map questionText (imp_questions ''A'' [''1. A.1 Intro'']) = [''Question text not found'']"
  by code_simp














text \<open>
  \<^verbatim>\<open>parseFordSurvey.py\<close> has neither the guard nor a placeholder: a question whose
  identifier is followed by the help text at once is saved with an empty question text.
\<close>

lemma pfs_empty_question_text:
  "map (\<lambda>q. (questionId q, questionText q, helpText q))
     (pfs_scan [''Section A: T - (High)'', ''A.1'', ''Help Text'', ''Explanation here''])
     = [(''A.1'', [], Some ''Explanation here'')]"
  by code_simp





section \<open>The next question start closes the record\<close>

lemma rq_boundary:
  "map questionId (rq_questions Cap_A boundary_lines) = [''A.2'']"
  by code_simp

lemma boundary_start: "re_search (rq_question_pattern Cap_A) (boundary_lines ! 0) = Some [(1, ''1'')]"
  by code_simp

lemma boundary_between:
  "re_search (rq_question_pattern Cap_A) (boundary_lines ! 1) = None"
  "re_search (rq_question_pattern Cap_A) (boundary_lines ! 2) = None"
  by code_simp+

lemma boundary_next: "re_search (rq_question_pattern Cap_A) (boundary_lines ! 3) = Some [(1, ''2'')]"
  by code_simp

text \<open>
  C4, as stated, says that a question start followed three or more lines later by the
  next question start has its record closed and emitted, and that a new record opens at
  that line. In \<^verbatim>\<open>extractRealQuestions.py\<close> the record is closed there, but it is
  emitted only when question text was collected: on the lines below question \<^verbatim>\<open>A.1\<close>
  at line 0 is followed by question \<^verbatim>\<open>A.2\<close> at line 3, and only \<^verbatim>\<open>A.2\<close> is emitted.
\<close>

theorem C4_next_question_opens_counterexample:
  "re_search (rq_question_pattern Cap_A) (boundary_lines ! 0) = Some [(1, ''1'')]
   \<and> re_search (rq_question_pattern Cap_A) (boundary_lines ! 3) = Some [(1, ''2'')]
   \<and> map questionId (rq_questions Cap_A boundary_lines) = [''A.2'']"
  by (simp add: boundary_start boundary_next rq_boundary)

lemma rq_body_next:
  "rq_body section_id lines i j v = Continue j' v' \<Longrightarrow> j' = j + 1"
  by (auto simp: rq_body_def rq_options_part_def Let_def split: if_splits)

lemma rq_lookahead_le:
  assumes "re_search (rq_question_pattern section_id) (lines ! k) \<noteq> None" and "i + 2 < k"
    and "j \<le> k"
  shows "fst (rq_lookahead section_id lines i j v) \<le> k"
  using assms
proof (induction section_id lines i j v rule: rq_lookahead.induct)
  case (1 section_id lines i j v)
  show ?case
  proof (cases "j < length lines \<and> j < i + 30")
    case False
    with "1.prems" show ?thesis
      by (subst rq_lookahead.simps) auto
  next
    case True
    show ?thesis
    proof (cases "rq_body section_id lines i j v")
      case (Break v')
      with True "1.prems" show ?thesis
        by (subst rq_lookahead.simps) simp
    next
      case (Continue j' v')
      have j': "j' = j + 1"
        using Continue by (rule rq_body_next)
      have "j \<noteq> k"
      proof
        assume "j = k"
        with "1.prems" have "rq_body section_id lines i j v = Break v"
          by (simp add: rq_body_def)
        with Continue show False by simp
      qed
      with "1.prems" j' have "j' \<le> k" by simp
      with "1.IH"[OF True Continue] "1.prems"
      have "fst (rq_lookahead section_id lines i j' v') \<le> k" by blast
      with True Continue show ?thesis
        by (subst rq_lookahead.simps) simp
    qed
  qed
qed

lemma rq_step_skip:
  "re_search (rq_question_pattern section_id) (lines ! j) = None
   \<Longrightarrow> rq_step section_id lines (j, qs) = (j + 1, qs)"
  by (simp add: rq_step_def)

lemma rq_skip:
  assumes "\<forall>n. j \<le> n \<and> n < k \<longrightarrow> re_search (rq_question_pattern section_id) (lines ! n) = None"
    and "j \<le> k"
  shows "(rq_step section_id lines ^^ (k - j)) (j, qs) = (k, qs)"
  using assms
proof (induction "k - j" arbitrary: j)
  case 0
  then show ?case by simp
next
  case (Suc d)
  then have d: "d = k - (j + 1)" and lt: "j < k" by simp_all
  have s: "rq_step section_id lines (j, qs) = (j + 1, qs)"
    using Suc.prems lt by (simp add: rq_step_skip)
  have "(rq_step section_id lines ^^ (k - (j + 1))) (j + 1, qs) = (k, qs)"
    using Suc.hyps(1)[OF d] Suc.prems lt by simp
  moreover have "k - j = Suc (k - (j + 1))" using lt by simp
  ultimately show ?case
    using s by (simp add: funpow_swap1)
qed

lemma rq_loop_funpow:
  assumes "\<forall>m<n. fst ((rq_step section_id lines ^^ m) st) < length lines"
  shows "rq_loop section_id lines st = rq_loop section_id lines ((rq_step section_id lines ^^ n) st)"
  using assms
proof (induction n)
  case 0
  show ?case by simp
next
  case (Suc n)
  then have "rq_loop section_id lines st = rq_loop section_id lines ((rq_step section_id lines ^^ n) st)"
    by simp
  also have "\<dots> = rq_loop section_id lines (rq_step section_id lines ((rq_step section_id lines ^^ n) st))"
    using Suc.prems by (subst rq_loop.simps) simp
  finally show ?case by simp
qed

lemma rq_skip_fst:
  assumes "\<forall>n. j \<le> n \<and> n < k \<longrightarrow> re_search (rq_question_pattern section_id) (lines ! n) = None"
    and "j \<le> k" and "m \<le> k - j"
  shows "(rq_step section_id lines ^^ m) (j, qs) = (j + m, qs)"
proof -
  have "\<forall>n. j \<le> n \<and> n < j + m \<longrightarrow> re_search (rq_question_pattern section_id) (lines ! n) = None"
    using assms by auto
  from rq_skip[OF this, of qs] show ?thesis by simp
qed

text \<open>
  C4, amended: in \<^verbatim>\<open>extractRealQuestions.py\<close>, when line \<open>i\<close> starts a question, line
  \<open>k\<close>, three or more lines later, is the next line that starts one, the look-ahead for
  the record of line \<open>i\<close> stops at or before line \<open>k\<close>, the record is appended if its
  question text is not empty (at most one record), and after finitely many rounds the
  cursor of the scan is exactly at line \<open>k\<close>, where the next record opens: the rest of
  the scan is the scan from line \<open>k\<close>.
\<close>

theorem C4_next_question_opens:
  assumes start: "re_search (rq_question_pattern section_id) (lines ! i) = Some m"
    and none: "\<forall>n. i < n \<and> n < k \<longrightarrow> re_search (rq_question_pattern section_id) (lines ! n) = None"
    and nxt: "re_search (rq_question_pattern section_id) (lines ! k) \<noteq> None"
    and far: "i + 3 \<le> k" and inside: "k < length lines"
  shows "\<exists>n j v. rq_lookahead section_id lines i (i + 1) rq_init = (j, v) \<and> j \<le> k
      \<and> (rq_step section_id lines ^^ n) (i, qs)
          = (k, qs @ rq_emit section_id (lines ! i) (group m 1) v)
      \<and> rq_loop section_id lines (i, qs)
          = rq_loop section_id lines (k, qs @ rq_emit section_id (lines ! i) (group m 1) v)
      \<and> length (rq_emit section_id (lines ! i) (group m 1) v) \<le> 1"
proof -
  obtain j v where la: "rq_lookahead section_id lines i (i + 1) rq_init = (j, v)"
    by (cases "rq_lookahead section_id lines i (i + 1) rq_init")
  let ?qs' = "qs @ rq_emit section_id (lines ! i) (group m 1) v"
  have jk: "j \<le> k"
    using rq_lookahead_le[OF nxt, of i "i + 1" rq_init] far la by simp
  have ij: "i + 1 \<le> j"
    using rq_lookahead_ge[of "i + 1" section_id lines i rq_init] la by simp
  have s1: "rq_step section_id lines (i, qs) = (j, ?qs')"
    using start la by (simp add: rq_step_def)
  have none': "\<forall>n. j \<le> n \<and> n < k \<longrightarrow> re_search (rq_question_pattern section_id) (lines ! n) = None"
    using none ij by auto
  have s2: "(rq_step section_id lines ^^ (k - j)) (j, ?qs') = (k, ?qs')"
    by (rule rq_skip[OF none' jk])
  have reach: "(rq_step section_id lines ^^ Suc (k - j)) (i, qs) = (k, ?qs')"
    using s1 s2 by (simp add: funpow_swap1)
  have below: "\<forall>m<Suc (k - j). fst ((rq_step section_id lines ^^ m) (i, qs)) < length lines"
  proof (intro allI impI)
    fix m assume m: "m < Suc (k - j)"
    show "fst ((rq_step section_id lines ^^ m) (i, qs)) < length lines"
    proof (cases m)
      case 0
      with far inside show ?thesis by simp
    next
      case (Suc m')
      with m have m': "m' \<le> k - j" "m' < k - j" by simp_all
      have "(rq_step section_id lines ^^ m') (j, ?qs') = (j + m', ?qs')"
        by (rule rq_skip_fst[OF none' jk m'(1)])
      then have "(rq_step section_id lines ^^ m) (i, qs) = (j + m', ?qs')"
        using Suc s1 by (simp add: funpow_swap1)
      with m'(2) inside show ?thesis by simp
    qed
  qed
  have loop: "rq_loop section_id lines (i, qs) = rq_loop section_id lines (k, ?qs')"
    using rq_loop_funpow[OF below] reach by simp
  have "length (rq_emit section_id (lines ! i) (group m 1) v) \<le> 1"
    by (simp add: rq_emit_def Let_def)
  with la jk reach loop show ?thesis by blast
qed

theorem C4_next_question_opens_witness:
  "re_search (rq_question_pattern Cap_A) (boundary_lines ! 0) = Some [(1, ''1'')]
   \<and> re_search (rq_question_pattern Cap_A) (boundary_lines ! 1) = None
   \<and> re_search (rq_question_pattern Cap_A) (boundary_lines ! 2) = None
   \<and> re_search (rq_question_pattern Cap_A) (boundary_lines ! 3) = Some [(1, ''2'')]
   \<and> (\<exists>n j v. rq_lookahead Cap_A boundary_lines 0 (0 + 1) rq_init = (j, v) \<and> j \<le> 3
        \<and> (rq_step Cap_A boundary_lines ^^ n) (0, [])
            = (3, [] @ rq_emit Cap_A (boundary_lines ! 0) (group [(1, ''1'')] 1) v)
        \<and> rq_loop Cap_A boundary_lines (0, [])
            = rq_loop Cap_A boundary_lines
                (3, [] @ rq_emit Cap_A (boundary_lines ! 0) (group [(1, ''1'')] 1) v)
        \<and> length (rq_emit Cap_A (boundary_lines ! 0) (group [(1, ''1'')] 1) v) \<le> 1)"
proof -
  have none: "\<forall>n. 0 < n \<and> n < 3 \<longrightarrow>
      re_search (rq_question_pattern Cap_A) (boundary_lines ! n) = None"
  proof (intro allI impI)
    fix n :: nat assume "0 < n \<and> n < 3"
    then have "n = 1 \<or> n = 2" by arith
    then show "re_search (rq_question_pattern Cap_A) (boundary_lines ! n) = None"
      using boundary_between by auto
  qed
  have nxt: "re_search (rq_question_pattern Cap_A) (boundary_lines ! 3) \<noteq> None"
    by (simp add: boundary_next)
  have far: "0 + 3 \<le> (3::nat)" by simp
  have inside: "3 < length boundary_lines" by (simp add: boundary_lines_def)
  from C4_next_question_opens[OF boundary_start none nxt far inside, of "[]"]
    boundary_start boundary_between boundary_next
  show ?thesis by blast
qed

text \<open>
  In \<^verbatim>\<open>parseFordSurveyImproved.py\<close> the record is always emitted, but the line after a
  \<^verbatim>\<open>Help Text\<close> line is taken as help text without a look at what it is: a question
  start in that place opens no record.
\<close>

lemma imp_help_swallows_question:
  "map (\<lambda>q. (questionId q, helpText q))
       (imp_questions ''A'' [''1. A.1 first'', ''What is it?'', ''Help Text'',
                             ''2. A.2 second question'', ''Why?''])
     = [(''A.1'', Some ''2. A.2 second question'')]"
  by code_simp

section \<open>The scores of a question\<close>

text \<open>
  First the match of the score pattern on a line that carries the marker; then the loop
  that looks for the first such line.
\<close>

lemma star_g_run:
  assumes f: "\<And>s c k. f s c k = (case s of [] \<Rightarrow> None | x # xs \<Rightarrow> if P x then k xs c else None)"
    and "\<forall>x\<in>set w. P x" and "rest = [] \<or> \<not> P (hd rest)" and "length (w @ rest) \<le> n"
    and "k rest c = Some r"
  shows "star_g f n (w @ rest) c k = Some r"
  using assms(2-)
proof (induction w arbitrary: n)
  case Nil
  then show ?case
    by (cases n; cases rest) (auto simp: f)
next
  case (Cons x w)
  then obtain n' where n: "n = Suc n'" by (cases n) auto
  have ih: "star_g f n' (w @ rest) c k = Some r"
    using Cons n by simp
  have px: "P x" using Cons.prems by simp
  let ?k' = "\<lambda>s' c'. if length s' < length ((x # w) @ rest) then star_g f n' s' c' k else None"
  have "f ((x # w) @ rest) c ?k' = ?k' (w @ rest) c"
    by (subst f) (simp add: px)
  also have "\<dots> = Some r"
    using ih by simp
  finally have "f ((x # w) @ rest) c ?k' = Some r" .
  then show ?case
    unfolding n by simp
qed

lemma rmatch_Star_run:
  assumes "\<forall>x\<in>set w. P x" and "rest = [] \<or> \<not> P (hd rest)" and "k rest c = Some r"
  shows "rmatch (Star (Cls P)) (w @ rest) c k = Some r"
proof -
  have "star_g (rmatch (Cls P)) (length (w @ rest)) (w @ rest) c k = Some r"
    by (rule star_g_run[where P = P]) (use assms in simp_all)
  then show ?thesis by simp
qed

lemma rmatch_Grp_Plus_run:
  assumes "w \<noteq> []" and "\<forall>x\<in>set w. P x" and "rest = [] \<or> \<not> P (hd rest)"
    and "k rest ((i, w) # c) = Some r"
  shows "rmatch (Grp i (Plus (Cls P))) (w @ rest) c k = Some r"
proof -
  from assms(1) obtain x w' where w: "w = x # w'" by (cases w) auto
  let ?k = "\<lambda>s' c'. k s' ((i, take (length (w @ rest) - length s') (w @ rest)) # c')"
  have "?k rest c = Some r" using assms(4) by simp
  then have "star_g (rmatch (Cls P)) (length (w' @ rest)) (w' @ rest) c ?k = Some r"
    by (intro star_g_run[where P = P]) (use assms(2,3) w in simp_all)
  then show ?thesis
    using assms(2) w by (simp add: Plus_def)
qed

lemma rmatch_Str_pre: "k rest c = Some r \<Longrightarrow> rmatch (Str p) (p @ rest) c k = Some r"
  by (simp add: rmatch_Str)

lemma rmatch_Lit_pre: "k rest c = Some r \<Longrightarrow> rmatch (Lit x) (x # rest) c k = Some r"
  by (simp add: rmatch_Lit)

lemma digit_not_space: "is_digit c \<Longrightarrow> \<not> is_space c"
  by (auto simp: is_digit_def is_space_def)

lemma score_match_marker:
  assumes dn: "dn \<noteq> []" "\<forall>c\<in>set dn. is_digit c" and dm: "dm \<noteq> []" "\<forall>c\<in>set dm. is_digit c"
    and post: "post = [] \<or> \<not> is_digit (hd post)"
  shows "re_match score_pattern (''Likelihood:'' @ '' '' @ dn @ '','' @ '' '' @ ''Overall impact:''
            @ '' '' @ dm @ post)
         = Some [(2, dm), (1, dn)]"
proof -
  have hd_dn: "\<not> is_space (hd (dn @ s))" for s
    using dn digit_not_space by (cases dn) auto
  have hd_dm: "\<not> is_space (hd (dm @ s))" for s
    using dm digit_not_space by (cases dm) auto
  have "rmatch score_pattern (''Likelihood:'' @ '' '' @ dn @ '','' @ '' '' @ ''Overall impact:''
            @ '' '' @ dm @ post) [] (\<lambda>s' c'. Some (s', c'))
        = Some (post, [(2, dm), (1, dn)])"
    unfolding score_pattern_def Seqs_Cons Seqs_Nil rmatch.simps(3) Space_def Digit_def
    apply (rule rmatch_Str_pre)
    apply (rule rmatch_Star_run)
      apply (simp add: is_space_def)
     apply (simp add: hd_dn)
    apply (rule rmatch_Grp_Plus_run[OF dn(1) dn(2)])
     apply (simp add: is_digit_def)
    apply (simp only: append_Cons append_Nil)
    apply (rule rmatch_Lit_pre)
    apply (rule rmatch_Star_run[where w = "'' ''" and rest = "''Overall impact:'' @ '' '' @ dm @ post",
          simplified append_Cons append_Nil])
      apply (simp add: is_space_def)
     apply (simp add: is_space_def)
    apply (rule rmatch_Str_pre[where p = "''Overall impact:''" and rest = "'' '' @ dm @ post",
          simplified append_Cons append_Nil])
    apply (rule rmatch_Star_run[where w = "'' ''" and rest = "dm @ post",
          simplified append_Cons append_Nil])
      apply (simp add: is_space_def)
     apply (simp add: hd_dm)
    apply (rule rmatch_Grp_Plus_run[OF dm(1) dm(2) post])
    apply simp
    done
  then show ?thesis
    by (simp add: re_match_def re_match_rest_def)
qed

lemma no_earlier_prefix:
  assumes "sep \<noteq> []" and "\<not> sublist sep (pre @ butlast sep)" and "pre = u @ t" and "t \<noteq> []"
  shows "\<not> prefix sep (t @ sep @ rest)"
proof
  assume p: "prefix sep (t @ sep @ rest)"
  have split: "t @ sep @ rest = (t @ butlast sep) @ (last sep # rest)"
    using assms(1) by simp
  have len: "length sep \<le> length (t @ butlast sep)"
    using assms(1,4) by (cases t) simp_all
  have "prefix (t @ butlast sep) (t @ sep @ rest)"
    unfolding split by simp
  with p have "prefix sep (t @ butlast sep)"
    using len by (rule prefix_length_prefix)
  then obtain ss where "t @ butlast sep = sep @ ss"
    by (auto simp: prefix_def)
  then have "pre @ butlast sep = u @ sep @ ss"
    unfolding assms(3) by simp
  then have "sublist sep (pre @ butlast sep)"
    unfolding sublist_def by blast
  with assms(2) show False by simp
qed

lemma re_search_skip:
  assumes "\<And>u t. pre = u @ t \<Longrightarrow> t \<noteq> [] \<Longrightarrow> re_match r (t @ x) = None"
  shows "re_search r (pre @ x) = re_search r x"
  using assms
proof (induction pre)
  case Nil
  show ?case by simp
next
  case (Cons a pre)
  have "re_match r ((a # pre) @ x) = None"
    using Cons.prems[of "[]" "a # pre"] by simp
  moreover have "re_search r (pre @ x) = re_search r x"
  proof (rule Cons.IH)
    fix u t assume "pre = u @ t" "t \<noteq> []"
    then show "re_match r (t @ x) = None"
      using Cons.prems[of "a # u" t] by simp
  qed
  ultimately show ?case by simp
qed

lemma re_search_at: "re_match r x = Some c \<Longrightarrow> re_search r x = Some c"
  by (cases x) simp_all

lemma score_match_needs_prefix: "\<not> prefix ''Likelihood:'' y \<Longrightarrow> re_match score_pattern y = None"
  by (simp add: re_match_def re_match_rest_def score_pattern_def Seqs_Cons rmatch_Str)

lemma score_search_marker:
  assumes dn: "dn \<noteq> []" "\<forall>c\<in>set dn. is_digit c" and dm: "dm \<noteq> []" "\<forall>c\<in>set dm. is_digit c"
    and post: "post = [] \<or> \<not> is_digit (hd post)"
    and first: "\<not> sublist ''Likelihood:'' (pre @ ''Likelihood'')"
  shows "re_search score_pattern (pre @ ''Likelihood: '' @ dn @ '', Overall impact: '' @ dm @ post)
         = Some [(2, dm), (1, dn)]"
proof -
  let ?x = "''Likelihood:'' @ '' '' @ dn @ '','' @ '' '' @ ''Overall impact:'' @ '' '' @ dm @ post"
  have m: "re_match score_pattern ?x = Some [(2, dm), (1, dn)]"
    by (rule score_match_marker[OF dn dm post])
  have "re_search score_pattern (pre @ ?x) = re_search score_pattern ?x"
  proof (rule re_search_skip)
    fix u t assume ut: "pre = u @ t" "t \<noteq> []"
    have "\<not> prefix ''Likelihood:'' (t @ ''Likelihood:'' @ ('' '' @ dn @ '','' @ '' ''
        @ ''Overall impact:'' @ '' '' @ dm @ post))"
      by (rule no_earlier_prefix[OF _ _ ut]) (use first in simp_all)
    then show "re_match score_pattern (t @ ?x) = None"
      by (intro score_match_needs_prefix) simp
  qed
  also have "\<dots> = Some [(2, dm), (1, dn)]"
    using m by (rule re_search_at)
  finally show ?thesis by simp
qed

lemma fd_score_loop_skip:
  assumes "\<forall>n. j0 \<le> n \<and> n < j \<longrightarrow> re_search score_pattern (lines ! n) = None"
    and "j0 \<le> j" and "j \<le> hi"
  shows "fd_score_loop lines hi j0 = fd_score_loop lines hi j"
  using assms
proof (induction "j - j0" arbitrary: j0)
  case 0
  then show ?case by simp
next
  case (Suc d)
  then have lt: "j0 < j" and d: "d = j - (j0 + 1)" by simp_all
  have none: "re_search score_pattern (lines ! j0) = None"
    using Suc.prems lt by simp
  have "fd_score_loop lines hi j0 = fd_score_loop lines hi (j0 + 1)"
    using none lt Suc.prems(3) by (subst fd_score_loop.simps) (simp add: Let_def)
  also have "\<dots> = fd_score_loop lines hi j"
    using Suc.hyps(1)[OF d] Suc.prems lt by simp
  finally show ?case .
qed

lemma fd_score_loop_end: "fd_score_loop lines hi hi = \<lparr>likelihood = None, overallImpact = None\<rparr>"
  by (subst fd_score_loop.simps) simp

lemma fd_score_loop_hit:
  assumes "j < hi" and "sublist ''Likelihood:'' (lines ! j)" and "sublist ''impact:'' (lines ! j)"
    and "re_search score_pattern (lines ! j) = Some score_match"
  shows "fd_score_loop lines hi j =
      \<lparr>likelihood = Some (int_of_digits (group score_match 1)),
       overallImpact = Some (int_of_digits (group score_match 2))\<rparr>"
  using assms by (subst fd_score_loop.simps) (simp add: Let_def)

lemma fd_step_scoring:
  "\<exists>new. snd (fd_step section_id lines (i, qs)) = qs @ new \<and> length new \<le> 1
      \<and> (\<forall>q\<in>set new. scoring q = fd_scoring lines i)"
  by (auto simp: fd_step_def fd_same_line_def fd_emit_def fd_record_def Let_def
      split: option.splits prod.splits)

lemma marker_precheck:
  "sublist ''Likelihood:'' (pre @ ''Likelihood: '' @ dn @ '', Overall impact: '' @ dm @ post)"
  "sublist ''impact:'' (pre @ ''Likelihood: '' @ dn @ '', Overall impact: '' @ dm @ post)"
proof -
  have "pre @ ''Likelihood: '' @ dn @ '', Overall impact: '' @ dm @ post
      = pre @ ''Likelihood:'' @ ('' '' @ dn @ '', Overall impact: '' @ dm @ post)"
    by simp
  then show "sublist ''Likelihood:'' (pre @ ''Likelihood: '' @ dn @ '', Overall impact: '' @ dm @ post)"
    unfolding sublist_def by blast
  have "pre @ ''Likelihood: '' @ dn @ '', Overall impact: '' @ dm @ post
      = (pre @ ''Likelihood: '' @ dn @ '', Overall '') @ ''impact:'' @ ('' '' @ dm @ post)"
    by simp
  then show "sublist ''impact:'' (pre @ ''Likelihood: '' @ dn @ '', Overall impact: '' @ dm @ post)"
    unfolding sublist_def by blast
qed

text \<open>
  C7, as stated, says that a record without a line of scores in its window carries no
  scoring, the field being null or absent. Every record of \<^verbatim>\<open>extractFord2024Survey.py\<close>
  carries the dictionary \<^verbatim>\<open>scoring\<close> with its two keys (\<^verbatim>\<open>main\<close> reads
  \<^verbatim>\<open>q['scoring']['likelihood']\<close> of every question); without a line of scores both values
  are \<^verbatim>\<open>None\<close>.
\<close>

theorem C7_scoring_counterexample:
  "map scoring (fd_questions Cap_P no_scoring_lines)
     = [\<lparr>likelihood = None, overallImpact = None\<rparr>]"
  by code_simp

text \<open>
  C7, amended: the round of \<^verbatim>\<open>extractFord2024Survey.py\<close> that opens a record at line \<open>i\<close>
  appends at most one record. If line \<open>j\<close> of the window, the 50 lines from \<open>i\<close> on, reads
  \<^verbatim>\<open>Likelihood: N, Overall impact: M\<close> with two runs of digits (after any text that has
  no earlier \<^verbatim>\<open>Likelihood:\<close>, and before any text that does not go on with a digit), and
  no line of the window before \<open>j\<close> matches the score pattern, the scoring of the record
  is the pair of the two integers. If no line of the window matches the pattern, the
  scoring of the record is there and both its values are \<^verbatim>\<open>None\<close>.
\<close>

theorem C7_scoring:
  "\<exists>new. snd (fd_step section_id lines (i, qs)) = qs @ new \<and> length new \<le> 1
     \<and> ((i \<le> j \<and> j < i + 50 \<and> j < length lines
          \<and> lines ! j = pre @ ''Likelihood: '' @ dn @ '', Overall impact: '' @ dm @ post
          \<and> dn \<noteq> [] \<and> (\<forall>c\<in>set dn. is_digit c) \<and> dm \<noteq> [] \<and> (\<forall>c\<in>set dm. is_digit c)
          \<and> (post = [] \<or> \<not> is_digit (hd post))
          \<and> \<not> sublist ''Likelihood:'' (pre @ ''Likelihood'')
          \<and> (\<forall>n. i \<le> n \<and> n < j \<longrightarrow> re_search score_pattern (lines ! n) = None))
         \<longrightarrow> (\<forall>q\<in>set new. scoring q = \<lparr>likelihood = Some (int_of_digits dn),
                                           overallImpact = Some (int_of_digits dm)\<rparr>))
     \<and> ((\<forall>n. i \<le> n \<and> n < i + 50 \<and> n < length lines
               \<longrightarrow> re_search score_pattern (lines ! n) = None)
         \<longrightarrow> (\<forall>q\<in>set new. scoring q = \<lparr>likelihood = None, overallImpact = None\<rparr>))"
proof -
  from fd_step_scoring[of section_id lines i qs]
  obtain new where new: "snd (fd_step section_id lines (i, qs)) = qs @ new" "length new \<le> 1"
    "\<forall>q\<in>set new. scoring q = fd_scoring lines i"
    by blast
  let ?hi = "min (i + 50) (length lines)"
  have found: "fd_scoring lines i = \<lparr>likelihood = Some (int_of_digits dn),
                                        overallImpact = Some (int_of_digits dm)\<rparr>"
    if h: "i \<le> j" "j < i + 50" "j < length lines"
      "lines ! j = pre @ ''Likelihood: '' @ dn @ '', Overall impact: '' @ dm @ post"
      "dn \<noteq> []" "\<forall>c\<in>set dn. is_digit c" "dm \<noteq> []" "\<forall>c\<in>set dm. is_digit c"
      "post = [] \<or> \<not> is_digit (hd post)"
      "\<not> sublist ''Likelihood:'' (pre @ ''Likelihood'')"
      "\<forall>n. i \<le> n \<and> n < j \<longrightarrow> re_search score_pattern (lines ! n) = None"
  proof -
    have jhi: "j < ?hi" using h(2,3) by simp
    have m: "re_search score_pattern (lines ! j) = Some [(2, dm), (1, dn)]"
      unfolding h(4) by (rule score_search_marker[OF h(5,6,7,8,9,10)])
    have "fd_scoring lines i = fd_score_loop lines ?hi j"
      unfolding fd_scoring_def using h(11) h(1) jhi by (intro fd_score_loop_skip) simp_all
    also have "\<dots> = \<lparr>likelihood = Some (int_of_digits (group [(2, dm), (1, dn)] 1)),
                       overallImpact = Some (int_of_digits (group [(2, dm), (1, dn)] 2))\<rparr>"
      using jhi m marker_precheck[of pre dn dm post] unfolding h(4)[symmetric]
      by (intro fd_score_loop_hit) simp_all
    finally show ?thesis by (simp add: group_def)
  qed
  have absent: "fd_scoring lines i = \<lparr>likelihood = None, overallImpact = None\<rparr>"
    if h: "\<forall>n. i \<le> n \<and> n < i + 50 \<and> n < length lines
               \<longrightarrow> re_search score_pattern (lines ! n) = None"
  proof -
    show ?thesis
    proof (cases "i \<le> ?hi")
      case True
      have "fd_scoring lines i = fd_score_loop lines ?hi ?hi"
        unfolding fd_scoring_def using h True by (intro fd_score_loop_skip) auto
      then show ?thesis by (simp add: fd_score_loop_end)
    next
      case False
      then show ?thesis
        unfolding fd_scoring_def by (subst fd_score_loop.simps) simp
    qed
  qed
  from new found absent show ?thesis by (intro exI[of _ new]) simp
qed

lemma scoring_lines_no_match:
  "re_search score_pattern (scoring_lines ! 0) = None"
  "re_search score_pattern (scoring_lines ! 1) = None"
  "re_search score_pattern (no_scoring_lines ! 0) = None"
  "re_search score_pattern (no_scoring_lines ! 1) = None"
  by code_simp+

lemma scoring_lines_emitted:
  "length (snd (fd_step Cap_P scoring_lines (0, []))) = 1"
  "length (snd (fd_step Cap_P no_scoring_lines (0, []))) = 1"
  by code_simp+

lemma scoring_digits: "int_of_digits ''3'' = 3" "int_of_digits ''4'' = 4"
  by code_simp+

lemma scoring_first_marker: "\<not> sublist ''Likelihood:'' ([] @ ''Likelihood'')"
  by code_simp

lemma scoring_line:
  "scoring_lines ! 2 = [] @ ''Likelihood: '' @ ''3'' @ '', Overall impact: '' @ ''4'' @ []"
  by (simp add: scoring_lines_def)

lemma scoring_digit_strings:
  "list_all is_digit ''3''" "list_all is_digit ''4''"
  by (simp_all add: is_digit_def)

lemma map_single: "length xs = 1 \<Longrightarrow> \<forall>x\<in>set xs. f x = v \<Longrightarrow> map f xs = [v]"
  by (cases xs) auto

theorem C7_scoring_witness:
  "scoring_lines ! 2 = [] @ ''Likelihood: '' @ ''3'' @ '', Overall impact: '' @ ''4'' @ []
   \<and> list_all is_digit ''3'' \<and> list_all is_digit ''4''
   \<and> re_search score_pattern (scoring_lines ! 0) = None
   \<and> re_search score_pattern (scoring_lines ! 1) = None
   \<and> map scoring (snd (fd_step Cap_P scoring_lines (0, [])))
       = [\<lparr>likelihood = Some 3, overallImpact = Some 4\<rparr>]
   \<and> re_search score_pattern (no_scoring_lines ! 0) = None
   \<and> re_search score_pattern (no_scoring_lines ! 1) = None
   \<and> map scoring (snd (fd_step Cap_P no_scoring_lines (0, [])))
       = [\<lparr>likelihood = None, overallImpact = None\<rparr>]"
proof -
  have before: "\<forall>n. 0 \<le> n \<and> n < 2 \<longrightarrow> re_search score_pattern (scoring_lines ! n) = None"
  proof (intro allI impI)
    fix n :: nat assume "0 \<le> n \<and> n < 2"
    then have "n = 0 \<or> n = 1" by arith
    then show "re_search score_pattern (scoring_lines ! n) = None"
      using scoring_lines_no_match(1,2) by blast
  qed
  have d3: "\<forall>c\<in>set ''3''. is_digit c" and d4: "\<forall>c\<in>set ''4''. is_digit c"
    using scoring_digit_strings unfolding list_all_iff by blast+
  have len: "2 < length scoring_lines" by (simp add: scoring_lines_def)
  have hyp: "0 \<le> (2::nat) \<and> (2::nat) < 0 + 50 \<and> 2 < length scoring_lines
          \<and> scoring_lines ! 2 = [] @ ''Likelihood: '' @ ''3'' @ '', Overall impact: '' @ ''4'' @ []
          \<and> ''3'' \<noteq> [] \<and> (\<forall>c\<in>set ''3''. is_digit c) \<and> ''4'' \<noteq> [] \<and> (\<forall>c\<in>set ''4''. is_digit c)
          \<and> (([]::string) = [] \<or> \<not> is_digit (hd []))
          \<and> \<not> sublist ''Likelihood:'' ([] @ ''Likelihood'')
          \<and> (\<forall>n. 0 \<le> n \<and> n < 2 \<longrightarrow> re_search score_pattern (scoring_lines ! n) = None)"
    by (intro conjI len scoring_line d3 d4 scoring_first_marker before) simp_all
  from C7_scoring[where section_id = Cap_P and lines = scoring_lines and i = 0 and qs = "[]"
      and j = 2 and pre = "[]" and dn = "''3''" and dm = "''4''" and post = "[]"]
  obtain new where new: "snd (fd_step Cap_P scoring_lines (0, [])) = [] @ new"
    and imp: "(0 \<le> (2::nat) \<and> (2::nat) < 0 + 50 \<and> 2 < length scoring_lines
          \<and> scoring_lines ! 2 = [] @ ''Likelihood: '' @ ''3'' @ '', Overall impact: '' @ ''4'' @ []
          \<and> ''3'' \<noteq> [] \<and> (\<forall>c\<in>set ''3''. is_digit c) \<and> ''4'' \<noteq> [] \<and> (\<forall>c\<in>set ''4''. is_digit c)
          \<and> (([]::string) = [] \<or> \<not> is_digit (hd []))
          \<and> \<not> sublist ''Likelihood:'' ([] @ ''Likelihood'')
          \<and> (\<forall>n. 0 \<le> n \<and> n < 2 \<longrightarrow> re_search score_pattern (scoring_lines ! n) = None))
         \<longrightarrow> (\<forall>q\<in>set new. scoring q = \<lparr>likelihood = Some (int_of_digits ''3''),
                                           overallImpact = Some (int_of_digits ''4'')\<rparr>)"
    by (elim exE conjE) (rule that, assumption+)
  from imp hyp
  have all: "\<forall>q\<in>set new. scoring q = \<lparr>likelihood = Some (int_of_digits ''3''),
                                     overallImpact = Some (int_of_digits ''4'')\<rparr>"
    by (rule mp)
  have new_eq: "snd (fd_step Cap_P scoring_lines (0, [])) = new"
    using new by simp
  have a: "map scoring (snd (fd_step Cap_P scoring_lines (0, [])))
       = [\<lparr>likelihood = Some 3, overallImpact = Some 4\<rparr>]"
    unfolding scoring_digits[symmetric]
    by (rule map_single) (use scoring_lines_emitted(1) all new_eq in simp_all)
  have none: "\<forall>n. 0 \<le> n \<and> n < 0 + 50 \<and> n < length no_scoring_lines
      \<longrightarrow> re_search score_pattern (no_scoring_lines ! n) = None"
  proof (intro allI impI)
    fix n :: nat assume "0 \<le> n \<and> n < 0 + 50 \<and> n < length no_scoring_lines"
    then have "n < 2" by (simp add: no_scoring_lines_def)
    then have "n = 0 \<or> n = 1" by arith
    then show "re_search score_pattern (no_scoring_lines ! n) = None"
      using scoring_lines_no_match(3,4) by blast
  qed
  from C7_scoring[where section_id = Cap_P and lines = no_scoring_lines and i = 0 and qs = "[]"
      and j = 0 and pre = "[]" and dn = "[]" and dm = "[]" and post = "[]"]
  obtain new' where new': "snd (fd_step Cap_P no_scoring_lines (0, [])) = [] @ new'"
    and imp': "(\<forall>n. 0 \<le> n \<and> n < 0 + 50 \<and> n < length no_scoring_lines
               \<longrightarrow> re_search score_pattern (no_scoring_lines ! n) = None)
         \<longrightarrow> (\<forall>q\<in>set new'. scoring q = \<lparr>likelihood = None, overallImpact = None\<rparr>)"
    by (elim exE conjE) (rule that, assumption+)
  from imp' none
  have all': "\<forall>q\<in>set new'. scoring q = \<lparr>likelihood = None, overallImpact = None\<rparr>"
    by (rule mp)
  have new_eq': "snd (fd_step Cap_P no_scoring_lines (0, [])) = new'"
    using new' by simp
  have b: "map scoring (snd (fd_step Cap_P no_scoring_lines (0, [])))
       = [\<lparr>likelihood = None, overallImpact = None\<rparr>]"
    by (rule map_single) (use scoring_lines_emitted(2) all' new_eq' in simp_all)
  show ?thesis
    by (intro conjI scoring_line scoring_digit_strings scoring_lines_no_match a b)
qed

section \<open>The end of the question text\<close>

text \<open>
  \<^verbatim>\<open>s.split(sep)\<close> cuts at the first occurrence of the separator; a string without the
  separator is its only piece.
\<close>

lemma split_acc_first:
  assumes "sep \<noteq> []" and "\<not> sublist sep (pre @ butlast sep)"
  shows "split_acc sep acc (pre @ sep @ post) = (rev acc @ pre) # split_acc sep [] post"
  using assms(2)
proof (induction pre arbitrary: acc)
  case Nil
  from assms(1) obtain x xs where s: "sep = x # xs" by (cases sep) auto
  show ?case unfolding s by simp
next
  case (Cons a p)
  have np: "\<not> prefix sep ((a # p) @ sep @ post)"
    by (rule no_earlier_prefix[OF assms(1) Cons.prems, of "[]"]) simp_all
  have "\<not> sublist sep (p @ butlast sep)"
    using Cons.prems by (auto simp: sublist_Cons_right)
  then have "split_acc sep (a # acc) (p @ sep @ post) = (rev (a # acc) @ p) # split_acc sep [] post"
    by (rule Cons.IH)
  with np show ?case by simp
qed

lemma split_acc_none: "\<not> sublist sep s \<Longrightarrow> split_acc sep acc s = [rev acc @ s]"
proof (induction s arbitrary: acc)
  case Nil
  show ?case by simp
next
  case (Cons x xs)
  have "\<not> prefix sep (x # xs)"
    using Cons.prems prefix_imp_sublist by blast
  moreover have "\<not> sublist sep xs"
    using Cons.prems by (auto simp: sublist_Cons_right)
  ultimately show ?case using Cons.IH[of "x # acc"] by simp
qed

lemma split_first:
  assumes "sep \<noteq> []" and "\<not> sublist sep (pre @ butlast sep)"
  shows "split sep (pre @ sep @ post) = pre # split sep post"
  using split_acc_first[OF assms, of "[]" post] by (simp add: split_def)

lemma split_none: "\<not> sublist sep s \<Longrightarrow> split sep s = [s]"
  using split_acc_none[of sep s "[]"] by (simp add: split_def)

lemma sublist_marker: "sublist sep (pre @ sep @ post)"
  unfolding sublist_def by blast

text \<open>
  C8, as stated, says that a line with the help text marker or the options marker gives
  the fragment before the marker to the question text and the fragment after it to what
  comes next. In \<^verbatim>\<open>extractRealQuestions.py\<close> the options that stand behind the options
  marker, on a line met while the question text is collected, are not read: the record
  has no options. In \<^verbatim>\<open>parseFordSurveyImproved.py\<close> the line with the options marker is
  not cut: the text before the marker does not reach the question text.
\<close>

theorem C8_question_text_end_counterexample:
  "map (\<lambda>q. (questionText q, options q)) (rq_questions Cap_A marker_lines)
     = [(''Is there a program in place'', [])]
   \<and> map questionText (imp_questions ''A'' imp_marker_lines) = [''Is there a program'']"
  by code_simp

text \<open>
  When the question text has ended on a question mark before, \<^verbatim>\<open>extractRealQuestions.py\<close>
  reads the options that stand behind the options marker.
\<close>

lemma rq_marker_after_question_mark:
  "map (\<lambda>q. (questionText q, options q))
     (rq_questions Cap_A [''A.1'', ''Is there a program in place?'',
        ''Please select one of the following options Yes, we have a program'', ''Comments''])
     = [(''Is there a program in place?'', [''Yes, we have a program''])]"
  by code_simp

text \<open>
  C8, amended. In \<^verbatim>\<open>extractRealQuestions.py\<close>, while the look-ahead collects the question
  text (and the line is not taken for the next question start): a line without either
  marker, not empty and not starting with \<^verbatim>\<open>Data Location\<close>, is appended to the question
  text, and the collection stops there if the line has a question mark; a line with the
  help text marker ends the collection, with or without a question mark, the fragment
  before the marker is appended to the question text and the fragment after it is the
  help text (either stripped, and only if something is left; the fragment after the
  marker without a further marker); a line with the options marker and no help text
  marker ends the collection as well and starts the collection of options, the fragment
  before the marker being appended to the question text. In
  \<^verbatim>\<open>parseFordSurveyImproved.py\<close> a line that reaches the branch of the question text is
  appended, and the collection stops there if the line has a question mark; a line that
  is \<^verbatim>\<open>Help Text\<close>, or that has \<^verbatim>\<open>Please select\<close> and \<^verbatim>\<open>following options\<close>, ends the
  collection and gives nothing to the question text.
\<close>

theorem C8_question_text_end:
  assumes cq: "rq_collecting_question v" and co: "\<not> rq_collecting_options v"
    and nq: "\<not> (re_search (rq_question_pattern section_letter) (lines ! j) \<noteq> None \<and> j > i + 2)"
  shows
    "(\<not> sublist ''Help Text'' (lines ! j) \<and> \<not> sublist ''Please select'' (lines ! j)
        \<and> lines ! j \<noteq> [] \<and> \<not> prefix ''Data Location'' (lines ! j) \<longrightarrow>
      rq_body section_letter lines i j v
        = Continue (j + 1) (v\<lparr>rq_question_text := rq_question_text v @ '' '' @ lines ! j,
                              rq_collecting_question := (CHR ''?'' \<notin> set (lines ! j))\<rparr>))
     \<and> (lines ! j = pre @ ''Help Text'' @ post \<and> \<not> sublist ''Help Text'' (pre @ ''Help Tex'')
        \<and> \<not> sublist ''Help Text'' post \<and> \<not> sublist ''Please select'' post \<longrightarrow>
      rq_body section_letter lines i j v
        = Continue (j + 1)
            (v\<lparr>rq_question_text :=
                   rq_question_text v @ (if strip pre = [] then [] else '' '' @ strip pre),
               rq_collecting_question := False,
               rq_help_text := (if strip post = [] then rq_help_text v else Some (strip post))\<rparr>))
     \<and> (lines ! j = pre @ ''Please select'' @ post
        \<and> \<not> sublist ''Please select'' (pre @ ''Please selec'')
        \<and> \<not> sublist ''Help Text'' (lines ! j) \<longrightarrow>
      (\<exists>v'. rq_body section_letter lines i j v = Continue (j + 1) v'
         \<and> rq_question_text v'
             = rq_question_text v @ (if strip pre = [] then [] else '' '' @ strip pre)
         \<and> \<not> rq_collecting_question v' \<and> rq_collecting_options v'))
     \<and> (imp_collecting_question w \<and> \<not> imp_collecting_options w
        \<and> re_match (question_pattern section_id) (all_lines ! k) = None
        \<and> all_lines ! k \<noteq> ''Help Text'' \<and> all_lines ! k \<noteq> ''Comments''
        \<and> all_lines ! k \<noteq> ''Show possible answers''
        \<and> \<not> (sublist ''Please select'' (all_lines ! k)
              \<and> sublist ''following options'' (all_lines ! k))
        \<and> \<not> sublist ''Answered by:'' (all_lines ! k) \<and> \<not> sublist ''Date:'' (all_lines ! k)
        \<and> re_search date_pattern (all_lines ! k) = None
        \<and> \<not> prefix ''Data Location:'' (all_lines ! k) \<longrightarrow>
      imp_body section_id all_lines k w
        = Continue (k + 1)
            (w\<lparr>imp_question_text_lines := imp_question_text_lines w @ [all_lines ! k],
               imp_collecting_question := (CHR ''?'' \<notin> set (all_lines ! k))\<rparr>))
     \<and> (re_match (question_pattern section_id) (all_lines ! k) = None
        \<and> (all_lines ! k = ''Help Text''
            \<or> sublist ''Please select'' (all_lines ! k)
              \<and> sublist ''following options'' (all_lines ! k)) \<longrightarrow>
      (\<exists>k' w'. imp_body section_id all_lines k w = Continue k' w'
         \<and> \<not> imp_collecting_question w'
         \<and> imp_question_text_lines w' = imp_question_text_lines w))"
proof -
  let ?L = "lines ! j"
  have nq': "(re_search (rq_question_pattern section_letter) ?L \<noteq> None \<and> j > i + 2) = False"
    using nq by simp
  have plain: "rq_body section_letter lines i j v
        = Continue (j + 1) (v\<lparr>rq_question_text := rq_question_text v @ '' '' @ ?L,
                              rq_collecting_question := (CHR ''?'' \<notin> set ?L)\<rparr>)"
    if "\<not> sublist ''Help Text'' ?L" "\<not> sublist ''Please select'' ?L" "?L \<noteq> []"
       "\<not> prefix ''Data Location'' ?L"
    using that cq co unfolding rq_body_def Let_def nq'
    by (simp add: rq_options_part_def)
  have hlp: "rq_body section_letter lines i j v
        = Continue (j + 1)
            (v\<lparr>rq_question_text :=
                   rq_question_text v @ (if strip pre = [] then [] else '' '' @ strip pre),
               rq_collecting_question := False,
               rq_help_text := (if strip post = [] then rq_help_text v else Some (strip post))\<rparr>)"
    if l: "?L = pre @ ''Help Text'' @ post" and first: "\<not> sublist ''Help Text'' (pre @ ''Help Tex'')"
      and one: "\<not> sublist ''Help Text'' post" and np: "\<not> sublist ''Please select'' post"
  proof -
    have parts: "split ''Help Text'' ?L = [pre, post]"
      unfolding l using split_first[of "''Help Text''" pre post] split_none[OF one] first
      by simp
    have sub: "sublist ''Help Text'' ?L"
      unfolding l by (rule sublist_marker)
    show ?thesis
      using cq np unfolding rq_body_def Let_def nq' parts
      by (simp add: sub)
  qed
  have opts: "\<exists>v'. rq_body section_letter lines i j v = Continue (j + 1) v'
         \<and> rq_question_text v'
             = rq_question_text v @ (if strip pre = [] then [] else '' '' @ strip pre)
         \<and> \<not> rq_collecting_question v' \<and> rq_collecting_options v'"
    if l: "?L = pre @ ''Please select'' @ post"
      and first: "\<not> sublist ''Please select'' (pre @ ''Please selec'')"
      and nh: "\<not> sublist ''Help Text'' ?L"
  proof -
    have parts: "split ''Please select'' ?L = pre # split ''Please select'' post"
      unfolding l using split_first[of "''Please select''" pre post] first by simp
    have sub: "sublist ''Please select'' ?L"
      unfolding l by (rule sublist_marker)
    show ?thesis
      using cq nh unfolding rq_body_def Let_def nq' parts
      by (simp add: sub)
  qed
  let ?K = "all_lines ! k"
  have imp_plain: "imp_body section_id all_lines k w
        = Continue (k + 1)
            (w\<lparr>imp_question_text_lines := imp_question_text_lines w @ [?K],
               imp_collecting_question := (CHR ''?'' \<notin> set ?K)\<rparr>)"
    if "imp_collecting_question w" "\<not> imp_collecting_options w"
      "re_match (question_pattern section_id) ?K = None"
      "?K \<noteq> ''Help Text''" "?K \<noteq> ''Comments''" "?K \<noteq> ''Show possible answers''"
      "\<not> (sublist ''Please select'' ?K \<and> sublist ''following options'' ?K)"
      "\<not> sublist ''Answered by:'' ?K" "\<not> sublist ''Date:'' ?K"
      "re_search date_pattern ?K = None" "\<not> prefix ''Data Location:'' ?K"
  proof -
    have dl: "?K \<noteq> ''Data Location:''"
      using that(11) by auto
    show ?thesis
      using that dl unfolding imp_body_def Let_def
      by (cases "CHR ''?'' \<in> set ?K") auto
  qed
  have imp_marker: "\<exists>k' w'. imp_body section_id all_lines k w = Continue k' w'
         \<and> \<not> imp_collecting_question w'
         \<and> imp_question_text_lines w' = imp_question_text_lines w"
    if nm: "re_match (question_pattern section_id) ?K = None"
      and m: "?K = ''Help Text'' \<or> sublist ''Please select'' ?K \<and> sublist ''following options'' ?K"
  proof (cases "?K = ''Help Text''")
    case True
    then show ?thesis
      using nm unfolding imp_body_def Let_def by simp
  next
    case False
    with m have "sublist ''Please select'' ?K" "sublist ''following options'' ?K" by simp_all
    with False show ?thesis
      using nm unfolding imp_body_def Let_def by simp
  qed
  show ?thesis
  proof (intro conjI impI, goal_cases)
    case 1
    then show ?case by (elim conjE) (rule plain, assumption+)
  next
    case 2
    then show ?case by (elim conjE) (rule hlp, assumption+)
  next
    case 3
    then show ?case by (elim conjE) (rule opts, assumption+)
  next
    case 4
    then show ?case by (elim conjE) (rule imp_plain, assumption+)
  next
    case 5
    then show ?case by (elim conjE) (rule imp_marker, assumption+)
  qed
qed

lemma collecting_question_text:
  "rq_collecting_question rq_init" "\<not> rq_collecting_options rq_init"
  "imp_collecting_question imp_init" "\<not> imp_collecting_options imp_init"
  by (simp_all add: rq_init_def imp_init_def)

lemma help_lines_plain:
  "\<not> sublist ''Help Text'' (help_lines ! 1) \<and> \<not> sublist ''Please select'' (help_lines ! 1)
   \<and> help_lines ! 1 \<noteq> [] \<and> \<not> prefix ''Data Location'' (help_lines ! 1)"
  by code_simp

lemma help_lines_marker:
  "help_lines ! 2 = ''in place? '' @ ''Help Text'' @ '' It is so''
   \<and> \<not> sublist ''Help Text'' (''in place? '' @ ''Help Tex'')
   \<and> \<not> sublist ''Help Text'' '' It is so'' \<and> \<not> sublist ''Please select'' '' It is so''"
  by code_simp

lemma marker_lines_marker:
  "marker_lines ! 2
     = ''in place '' @ ''Please select'' @ '' one of the following options Yes, we have a program''
   \<and> \<not> sublist ''Please select'' (''in place '' @ ''Please selec'')
   \<and> \<not> sublist ''Help Text'' (marker_lines ! 2)"
  by code_simp

lemma imp_marker_lines_plain:
  "imp_collecting_question imp_init \<and> \<not> imp_collecting_options imp_init
   \<and> re_match (question_pattern ''A'') (imp_marker_lines ! 1) = None
   \<and> imp_marker_lines ! 1 \<noteq> ''Help Text'' \<and> imp_marker_lines ! 1 \<noteq> ''Comments''
   \<and> imp_marker_lines ! 1 \<noteq> ''Show possible answers''
   \<and> \<not> (sublist ''Please select'' (imp_marker_lines ! 1)
         \<and> sublist ''following options'' (imp_marker_lines ! 1))
   \<and> \<not> sublist ''Answered by:'' (imp_marker_lines ! 1) \<and> \<not> sublist ''Date:'' (imp_marker_lines ! 1)
   \<and> re_search date_pattern (imp_marker_lines ! 1) = None
   \<and> \<not> prefix ''Data Location:'' (imp_marker_lines ! 1)"
  by code_simp

lemma imp_marker_lines_marker:
  "re_match (question_pattern ''A'') (imp_marker_lines ! 2) = None
   \<and> (imp_marker_lines ! 2 = ''Help Text''
       \<or> sublist ''Please select'' (imp_marker_lines ! 2)
         \<and> sublist ''following options'' (imp_marker_lines ! 2))"
  by code_simp

lemma marker_fragments:
  "strip ''in place? '' = ''in place?''" "strip '' It is so'' = ''It is so''"
  "strip ''in place '' = ''in place''"
  by code_simp+

theorem C8_question_text_end_witness:
  "rq_collecting_question rq_init \<and> \<not> rq_collecting_options rq_init
   \<and> help_lines ! 2 = ''in place? '' @ ''Help Text'' @ '' It is so''
   \<and> marker_lines ! 2
       = ''in place '' @ ''Please select'' @ '' one of the following options Yes, we have a program''
   \<and> rq_body Cap_A help_lines 0 1 rq_init
       = Continue 2 (rq_init\<lparr>rq_question_text := '' Is there a program''\<rparr>)
   \<and> rq_body Cap_A help_lines 0 2 rq_init
       = Continue 3 (rq_init\<lparr>rq_question_text := '' in place?'', rq_collecting_question := False,
                             rq_help_text := Some ''It is so''\<rparr>)
   \<and> (\<exists>v'. rq_body Cap_A marker_lines 0 2 rq_init = Continue 3 v'
         \<and> rq_question_text v' = '' in place''
         \<and> \<not> rq_collecting_question v' \<and> rq_collecting_options v')
   \<and> imp_body ''A'' imp_marker_lines 1 imp_init
       = Continue 2 (imp_init\<lparr>imp_question_text_lines := [''Is there a program'']\<rparr>)
   \<and> (\<exists>k' w'. imp_body ''A'' imp_marker_lines 2 imp_init = Continue k' w'
         \<and> \<not> imp_collecting_question w' \<and> imp_question_text_lines w' = [])"
proof -
  have nq1: "\<not> (re_search (rq_question_pattern Cap_A) (help_lines ! 1) \<noteq> None \<and> 1 > (0::nat) + 2)"
    and nq2: "\<not> (re_search (rq_question_pattern Cap_A) (help_lines ! 2) \<noteq> None \<and> 2 > (0::nat) + 2)"
    and nq3: "\<not> (re_search (rq_question_pattern Cap_A) (marker_lines ! 2) \<noteq> None \<and> 2 > (0::nat) + 2)"
    by simp_all
  note first = C8_question_text_end[where v = rq_init and section_letter = Cap_A
      and lines = help_lines and i = 0 and j = 1 and pre = "[]" and post = "[]"
      and section_id = "''A''" and all_lines = imp_marker_lines and k = 1 and w = imp_init,
      OF collecting_question_text(1,2) nq1]
  note second = C8_question_text_end[where v = rq_init and section_letter = Cap_A
      and lines = help_lines and i = 0 and j = 2 and pre = "''in place? ''" and post = "'' It is so''"
      and section_id = "''A''" and all_lines = imp_marker_lines and k = 2 and w = imp_init,
      OF collecting_question_text(1,2) nq2]
  note third = C8_question_text_end[where v = rq_init and section_letter = Cap_A
      and lines = marker_lines and i = 0 and j = 2 and pre = "''in place ''"
      and post = "'' one of the following options Yes, we have a program''"
      and section_id = "''A''" and all_lines = imp_marker_lines and k = 2 and w = imp_init,
      OF collecting_question_text(1,2) nq3]
  have a: "rq_body Cap_A help_lines 0 1 rq_init
       = Continue 2 (rq_init\<lparr>rq_question_text := '' Is there a program''\<rparr>)"
    using first[THEN conjunct1, THEN mp, OF help_lines_plain]
    by (simp add: rq_init_def help_lines_def)
  have b: "rq_body Cap_A help_lines 0 2 rq_init
       = Continue 3 (rq_init\<lparr>rq_question_text := '' in place?'', rq_collecting_question := False,
                             rq_help_text := Some ''It is so''\<rparr>)"
    using second[THEN conjunct2, THEN conjunct1, THEN mp, OF help_lines_marker]
    by (simp add: rq_init_def marker_fragments)
  have c: "\<exists>v'. rq_body Cap_A marker_lines 0 2 rq_init = Continue 3 v'
         \<and> rq_question_text v' = '' in place''
         \<and> \<not> rq_collecting_question v' \<and> rq_collecting_options v'"
    using third[THEN conjunct2, THEN conjunct2, THEN conjunct1, THEN mp, OF marker_lines_marker]
    by (simp add: rq_init_def marker_fragments)
  have d: "imp_body ''A'' imp_marker_lines 1 imp_init
       = Continue 2 (imp_init\<lparr>imp_question_text_lines := [''Is there a program'']\<rparr>)"
    using first[THEN conjunct2, THEN conjunct2, THEN conjunct2, THEN conjunct1, THEN mp,
        OF imp_marker_lines_plain]
    by (simp add: imp_init_def imp_marker_lines_def)
  have e: "\<exists>k' w'. imp_body ''A'' imp_marker_lines 2 imp_init = Continue k' w'
         \<and> \<not> imp_collecting_question w' \<and> imp_question_text_lines w' = []"
    using second[THEN conjunct2, THEN conjunct2, THEN conjunct2, THEN conjunct2, THEN mp,
        OF imp_marker_lines_marker]
    by (simp add: imp_init_def)
  from help_lines_marker have hm: "help_lines ! 2 = ''in place? '' @ ''Help Text'' @ '' It is so''"
    by (rule conjunct1)
  from marker_lines_marker have mm: "marker_lines ! 2
       = ''in place '' @ ''Please select'' @ '' one of the following options Yes, we have a program''"
    by (rule conjunct1)
  show ?thesis
    by (intro conjI collecting_question_text(1,2) hm mm a b c d e)
qed

end
